theory Spec2Isabelle
  imports Complex_Main
begin

section \<open>Stock price forecasting: metrics, windowing, adapters, orchestration\<close>

text \<open>
  A shallow embedding of \<^verbatim>\<open>untitled-checkpoint.py\<close>: the directional-accuracy metric, the
  stochastic-simulation adapter (\<^verbatim>\<open>q\<close>, \<^verbatim>\<open>MCMC\<close>, \<^verbatim>\<open>MH\<close>, \<^verbatim>\<open>MCMC_model\<close>), the
  training-input construction of \<^verbatim>\<open>lstm_model\<close>, and the windowing and ensemble
  of \<^verbatim>\<open>get_forecast\<close>.

  Prices are Python floats; they are modelled as \<^typ>\<open>real\<close>, so rounding and NaN are not
  represented. A timestamp of the history index is a calendar day, modelled as the number of
  days since 1970-01-01.
\<close>

subsection \<open>Errors\<close>

text \<open>The Python exceptions that the modelled code can raise; \<open>AdapterFailure\<close> stands for an
  exception raised inside one of the external model libraries. \<open>OutOfBoundsTimedelta\<close> and
  \<open>OutOfBoundsDatetime\<close> are the two pandas errors of date arithmetic.\<close>

datatype py_error =
    ValueError
  | ZeroDivisionError
  | IndexError
  | KeyError
  | OverflowError
  | OutOfBoundsTimedelta
  | OutOfBoundsDatetime
  | AdapterFailure string

subsection \<open>Metrics: \<^verbatim>\<open>calculate_directional_accuracy\<close>\<close>

text \<open>The test of the loop body: both moves non-negative, or both negative.\<close>

definition same_direction :: "real \<Rightarrow> real \<Rightarrow> bool" where
  "same_direction actual_direction predicted_direction \<longleftrightarrow>
     (actual_direction \<ge> 0 \<and> predicted_direction \<ge> 0) \<or>
     (actual_direction < 0 \<and> predicted_direction < 0)"

text \<open>One iteration of \<^verbatim>\<open>for i in range(1, len(actual_prices))\<close>, on the counter.\<close>

definition da_step :: "real list \<Rightarrow> real list \<Rightarrow> nat \<Rightarrow> nat \<Rightarrow> nat" where
  "da_step actual_prices predicted_prices i correct_predictions =
     (let actual_direction = actual_prices ! i - actual_prices ! (i - 1);
          predicted_direction = predicted_prices ! i - actual_prices ! (i - 1)
      in if same_direction actual_direction predicted_direction
         then correct_predictions + 1 else correct_predictions)"

text \<open>
  The whole function. The lengths are compared first (\<^verbatim>\<open>ValueError\<close>); \<^verbatim>\<open>total_predictions\<close>
  is \<^verbatim>\<open>len - 1\<close> as a Python integer, so it is \<open>-1\<close> on empty input; the final true division
  raises \<^verbatim>\<open>ZeroDivisionError\<close> exactly when \<^verbatim>\<open>total_predictions\<close> is zero.
\<close>

definition calculate_directional_accuracy :: "real list \<Rightarrow> real list \<Rightarrow> py_error + real" where
  "calculate_directional_accuracy actual_prices predicted_prices =
     (if length actual_prices \<noteq> length predicted_prices then Inl ValueError
      else
        let total_predictions = int (length actual_prices) - 1;
            correct_predictions =
              fold (da_step actual_prices predicted_prices) [1..<length actual_prices] 0
        in if total_predictions = 0 then Inl ZeroDivisionError
           else Inr (real correct_predictions / real_of_int total_predictions))"

text \<open>The specification's wording: two sign buckets, zero counting as non-negative.\<close>

definition sign_bucket :: "real \<Rightarrow> bool" where
  "sign_bucket x \<longleftrightarrow> x \<ge> 0"

definition direction_hit :: "real list \<Rightarrow> real list \<Rightarrow> nat \<Rightarrow> bool" where
  "direction_hit actual predicted i \<longleftrightarrow>
     sign_bucket (actual ! i - actual ! (i - 1)) = sign_bucket (predicted ! i - actual ! (i - 1))"

definition hit_indices :: "real list \<Rightarrow> real list \<Rightarrow> nat set" where
  "hit_indices actual predicted =
     {i. 1 \<le> i \<and> i < length actual \<and> direction_hit actual predicted i}"

subsection \<open>Python sequence indexing\<close>

text \<open>
  \<^verbatim>\<open>xs[k]\<close> on a list or array: a negative \<open>k\<close> counts from the end, and a position outside
  the sequence raises \<^verbatim>\<open>IndexError\<close>. Note that \<^verbatim>\<open>xs[-0]\<close> is \<^verbatim>\<open>xs[0]\<close>.
\<close>

definition py_index :: "'a list \<Rightarrow> int \<Rightarrow> py_error + 'a" where
  "py_index xs k =
     (let pos = (if k < 0 then k + int (length xs) else k)
      in if pos < 0 \<or> int (length xs) \<le> pos then Inl IndexError else Inr (xs ! nat pos))"

subsection \<open>Stochastic-simulation adapter: the sampler \<^verbatim>\<open>MCMC\<close>\<close>

text \<open>Module-level constants \<^verbatim>\<open>mu, sig, N = 0.25, 0.5, 1000\<close>.\<close>

definition mu :: real where "mu = 0.25"
definition sig :: real where "sig = 0.5"
definition N :: nat where "N = 1000"

definition q :: "real \<Rightarrow> real" where
  "q x = (1 / sqrt (2 * pi * sig ^ 2)) * exp (- ((x - mu) ^ 2) / (2 * sig ^ 2))"

text \<open>
  The sampler reads three random generators. Their results are supplied by the environment:
  for one call of \<^verbatim>\<open>MCMC\<close>, \<open>np_uniform i\<close> is what \<^verbatim>\<open>np.random.uniform(-1, 1)\<close> returns in
  iteration \<open>i\<close>, \<open>np_rand i\<close> what \<^verbatim>\<open>np.random.rand()\<close> returns there (when it is called), and
  \<open>py_randbelow i\<close> the raw draw behind the \<open>i\<close>-th selection of \<^verbatim>\<open>random.sample\<close>.
\<close>

record rand_src =
  np_uniform :: "nat \<Rightarrow> real"
  np_rand :: "nat \<Rightarrow> real"
  py_randbelow :: "nat \<Rightarrow> nat"

text \<open>
  \<^verbatim>\<open>random.sample(population, k)\<close> of the standard library, in its pool variant (taken for
  \<open>k = n = 1000\<close>): selection \<open>i\<close> draws \<open>j\<close> below \<open>n - i\<close>, takes \<open>pool[j]\<close> and moves
  \<open>pool[n - i - 1]\<close> into the hole.
\<close>

fun sample_pool :: "(nat \<Rightarrow> nat) \<Rightarrow> 'a list \<Rightarrow> nat \<Rightarrow> nat \<Rightarrow> 'a list" where
  "sample_pool randbelow pool i 0 = []"
| "sample_pool randbelow pool i (Suc k) =
     (let n = length pool;
          j = randbelow i mod (n - i)
      in pool ! j # sample_pool randbelow (pool[j := pool ! (n - i - 1)]) (Suc i) k)"

definition random_sample :: "rand_src \<Rightarrow> 'a list \<Rightarrow> nat \<Rightarrow> 'a list" where
  "random_sample src population k = sample_pool (py_randbelow src) population 0 k"

text \<open>One iteration of \<^verbatim>\<open>for i in range(N)\<close> on the state \<open>(r, p, pts)\<close>.\<close>

definition mcmc_iter :: "rand_src \<Rightarrow> nat \<Rightarrow> real \<times> real \<times> real list \<Rightarrow> real \<times> real \<times> real list" where
  "mcmc_iter src i s =
     (case s of (r, p, pts) \<Rightarrow>
        let rn = r + np_uniform src i;
            pn = q rn
        in if pn \<ge> p then (rn, pn, pts @ [rn])
           else if np_rand src i < pn / p then (rn, pn, pts @ [rn])
           else (r, p, pts @ [r]))"

text \<open>\<^verbatim>\<open>MCMC(n)\<close>: the argument is not read, the chain runs \<open>N\<close> iterations from \<open>r = 0\<close>.\<close>

definition MCMC :: "rand_src \<Rightarrow> nat \<Rightarrow> real list" where
  "MCMC src n =
     (case fold (mcmc_iter src) [0..<N] (0, q 0, []) of
        (r, p, pts) \<Rightarrow> random_sample src pts (length pts))"

subsection \<open>Stochastic-simulation adapter: \<^verbatim>\<open>MH\<close>\<close>

definition maturnity :: real where "maturnity = 1"
definition volatility :: real where "volatility = 0.25"
definition risk_free :: real where "risk_free = 0.1"

text \<open>The factor applied in the loop body for time increment \<open>delta_t\<close> and noise \<open>z\<close>.\<close>

definition growth :: "real \<Rightarrow> real \<Rightarrow> real" where
  "growth delta_t z =
     exp ((risk_free - 0.5 * volatility ^ 2) * delta_t + volatility * sqrt delta_t * z)"

text \<open>
  The \<^verbatim>\<open>while timestep < steps\<close> loop on \<open>(timestep, i, stock_pred)\<close>. \<open>rng t\<close> is the random
  source consumed by the call \<^verbatim>\<open>MCMC(N)\<close> made at timestep \<open>t\<close>. The base price is
  \<^verbatim>\<open>stock_pred[-i]\<close>, the noise \<^verbatim>\<open>pts[timestep + 5]\<close>; either read can raise.
\<close>

function MH_loop ::
  "(nat \<Rightarrow> rand_src) \<Rightarrow> real \<Rightarrow> nat \<Rightarrow> nat \<Rightarrow> nat \<Rightarrow> real list \<Rightarrow> py_error + real list" where
  "MH_loop rng delta_t steps timestep i stock_pred =
     (if timestep < steps then
        (case py_index stock_pred (- int i) of
           Inl e \<Rightarrow> Inl e
         | Inr stock_price \<Rightarrow>
             (case py_index (MCMC (rng timestep) N) (int timestep + 5) of
                Inl e \<Rightarrow> Inl e
              | Inr z \<Rightarrow>
                  MH_loop rng delta_t steps (timestep + 1) (i + 1)
                    (stock_pred @ [stock_price * growth delta_t z])))
      else Inr stock_pred)"
  by pat_completeness auto
termination
  by (relation "measure (\<lambda>(rng, delta_t, steps, timestep, i, stock_pred). steps - timestep)") auto

declare MH_loop.simps [simp del]

text \<open>
  The three error measures of a validation run. \<^verbatim>\<open>mean_squared_error\<close> (scikit-learn) and
  \<^verbatim>\<open>smape\<close> (pmdarima) are library functions and are taken as parameters.
\<close>

record metrics_lib =
  mean_squared_error :: "real list \<Rightarrow> real list \<Rightarrow> py_error + real"
  smape :: "real list \<Rightarrow> real list \<Rightarrow> py_error + real"

record errors =
  err_mse :: real
  err_smape :: real
  err_da :: real

definition compute_errors :: "metrics_lib \<Rightarrow> real list \<Rightarrow> real list \<Rightarrow> py_error + errors" where
  "compute_errors lib y_test pred =
     (case mean_squared_error lib y_test pred of
        Inl e \<Rightarrow> Inl e
      | Inr m \<Rightarrow>
          (case smape lib y_test pred of
             Inl e \<Rightarrow> Inl e
           | Inr s \<Rightarrow>
               (case calculate_directional_accuracy y_test pred of
                  Inl e \<Rightarrow> Inl e
                | Inr d \<Rightarrow> Inr \<lparr>err_mse = m, err_smape = s, err_da = d\<rparr>)))"

text \<open>
  \<^verbatim>\<open>MH(y_train, y_test, is_forecast)\<close>. \<^verbatim>\<open>delta_t = maturnity / steps\<close> is computed before
  \<^verbatim>\<open>y_train[-1]\<close> is read, so an empty \<^verbatim>\<open>y_test\<close> raises \<^verbatim>\<open>ZeroDivisionError\<close> first.
  \<^verbatim>\<open>y_train[-1]\<close> is the last value by position. With \<^verbatim>\<open>is_forecast\<close> the errors are \<^verbatim>\<open>np.nan\<close>,
  modelled as \<open>None\<close>.
\<close>

definition MH ::
  "metrics_lib \<Rightarrow> (nat \<Rightarrow> rand_src) \<Rightarrow> real list \<Rightarrow> real list \<Rightarrow> bool
     \<Rightarrow> py_error + (errors option \<times> real list)" where
  "MH lib rng y_train y_test is_forecast =
     (let steps = length y_test
      in if steps = 0 then Inl ZeroDivisionError
         else
           let delta_t = maturnity / real steps
           in case py_index y_train (- 1) of
                Inl e \<Rightarrow> Inl e
              | Inr last_price \<Rightarrow>
                  (case MH_loop rng delta_t steps 1 0 [last_price] of
                     Inl e \<Rightarrow> Inl e
                   | Inr stock_pred \<Rightarrow>
                       if \<not> is_forecast then
                         (case compute_errors lib y_test stock_pred of
                            Inl e \<Rightarrow> Inl e
                          | Inr errs \<Rightarrow> Inr (Some errs, stock_pred))
                       else Inr (None, stock_pred)))"

text \<open>The noise read at timestep \<open>t\<close>, when the read is in range.\<close>

definition noise :: "(nat \<Rightarrow> rand_src) \<Rightarrow> nat \<Rightarrow> real" where
  "noise rng t = MCMC (rng t) N ! (t + 5)"

text \<open>A random source whose proposals never move the chain.\<close>

definition still_src :: rand_src where
  "still_src = \<lparr>np_uniform = (\<lambda>i. 0), np_rand = (\<lambda>i. 0), py_randbelow = (\<lambda>i. 0)\<rparr>"

subsection \<open>Calendar days\<close>

text \<open>
  The history index holds one timestamp per trading day. A timestamp is modelled as its day
  number, counted from 1970-01-01 (day 0, a Thursday). The two conversions below are the
  usual proleptic-Gregorian ones; they are needed for \<^verbatim>\<open>relativedelta(years = 2)\<close>.
\<close>

type_synonym timestamp = int

definition days_from_civil :: "int \<Rightarrow> int \<Rightarrow> int \<Rightarrow> timestamp" where
  "days_from_civil y m d =
     (let y' = (if m \<le> 2 then y - 1 else y);
          era = y' div 400;
          yoe = y' - era * 400;
          doy = (153 * (if m > 2 then m - 3 else m + 9) + 2) div 5 + d - 1;
          doe = yoe * 365 + yoe div 4 - yoe div 100 + doy
      in era * 146097 + doe - 719468)"

definition civil_from_days :: "timestamp \<Rightarrow> int \<times> int \<times> int" where
  "civil_from_days z =
     (let z' = z + 719468;
          era = z' div 146097;
          doe = z' - era * 146097;
          yoe = (doe - doe div 1460 + doe div 36524 - doe div 146096) div 365;
          doy = doe - (365 * yoe + yoe div 4 - yoe div 100);
          mp = (5 * doy + 2) div 153;
          d = doy - (153 * mp + 2) div 5 + 1;
          m = (if mp < 10 then mp + 3 else mp - 9)
      in (if m \<le> 2 then yoe + era * 400 + 1 else yoe + era * 400, m, d))"

definition is_leap :: "int \<Rightarrow> bool" where
  "is_leap y \<longleftrightarrow> y mod 4 = 0 \<and> (y mod 100 \<noteq> 0 \<or> y mod 400 = 0)"

definition days_in_month :: "int \<Rightarrow> int \<Rightarrow> int" where
  "days_in_month y m =
     (if m = 2 then (if is_leap y then 29 else 28)
      else if m = 4 \<or> m = 6 \<or> m = 9 \<or> m = 11 then 30 else 31)"

text \<open>
  A pandas timestamp counts nanoseconds from 1970-01-01 in 64 bits, so the representable
  midnights are the days from \<open>-106751\<close> (1677-09-22) to \<open>106751\<close> (2262-04-11); a time span
  has the same limit.
\<close>

definition ts_min :: timestamp where "ts_min = - 106751"
definition ts_max :: timestamp where "ts_max = 106751"

text \<open>
  \<^verbatim>\<open>t - relativedelta(years = n)\<close>: the year is lowered by \<open>n\<close> and the day of the month is
  clipped to the length of the month in the new year (29 February becomes 28 February); the
  timestamp is rebuilt from these fields, which raises when it is not representable.
\<close>

definition minus_years :: "timestamp \<Rightarrow> int \<Rightarrow> py_error + timestamp" where
  "minus_years t n =
     (case civil_from_days t of
        (y, m, d) \<Rightarrow>
          let r = days_from_civil (y - n) m (min d (days_in_month (y - n) m))
          in if r < ts_min \<or> ts_max < r then Inl OutOfBoundsDatetime else Inr r)"

text \<open>
  \<^verbatim>\<open>t + relativedelta(days = n)\<close>; \<^verbatim>\<open>t - relativedelta(days = n)\<close> is the same with \<open>- n\<close>. The
  library first builds \<^verbatim>\<open>datetime.timedelta(days = n)\<close>, which takes at most 999999999 days;
  adding it to the timestamp converts it to a pandas time span, and the sum must be a
  representable timestamp.
\<close>

definition add_days :: "timestamp \<Rightarrow> int \<Rightarrow> py_error + timestamp" where
  "add_days t n =
     (if 999999999 < \<bar>n\<bar> then Inl OverflowError
      else if 106751 < \<bar>n\<bar> then Inl OutOfBoundsTimedelta
      else if t + n < ts_min \<or> ts_max < t + n then Inl OutOfBoundsDatetime
      else Inr (t + n))"

text \<open>Day of the week, Monday = 0; business days are Monday to Friday.\<close>

definition weekday :: "timestamp \<Rightarrow> int" where
  "weekday t = (t + 3) mod 7"

definition is_business_day :: "timestamp \<Rightarrow> bool" where
  "is_business_day t \<longleftrightarrow> weekday t < 5"

text \<open>
  \<^verbatim>\<open>pd.date_range(start, end, freq="B")\<close>: the business days from \<open>start\<close> to \<open>end\<close>, both
  included, in increasing order; no holiday calendar.
\<close>

definition date_range_B :: "timestamp \<Rightarrow> timestamp \<Rightarrow> timestamp list" where
  "date_range_B start end = filter is_business_day [start..end]"

subsection \<open>Windowing in \<^verbatim>\<open>get_forecast\<close>\<close>

text \<open>The \<^verbatim>\<open>Close\<close> column of the history frame with its index.\<close>

type_synonym series = "(timestamp \<times> real) list"

text \<open>
  A label slice \<^verbatim>\<open>.loc[a:b]\<close> is turned by pandas into a slice of positions, one bound at a
  time. On an increasing index the left bound is the number of labels below \<open>a\<close> and the right
  bound the number of labels up to \<open>b\<close> (binary search, whether or not the label occurs); a
  decreasing index is searched in reverse. On an index that is neither, a bound must occur
  in the index, in one block, and gives the start or the end of that block; otherwise the
  slice raises \<^verbatim>\<open>KeyError\<close>.
\<close>

datatype side = Left | Right

definition searchsorted :: "timestamp list \<Rightarrow> timestamp \<Rightarrow> side \<Rightarrow> nat" where
  "searchsorted idx label sd =
     (case sd of
        Left \<Rightarrow> length (filter (\<lambda>t. t < label) idx)
      | Right \<Rightarrow> length (filter (\<lambda>t. t \<le> label) idx))"

definition get_slice_bound :: "timestamp list \<Rightarrow> timestamp \<Rightarrow> side \<Rightarrow> py_error + nat" where
  "get_slice_bound idx label sd =
     (if sorted idx then Inr (searchsorted idx label sd)
      else if sorted (rev idx) then
        Inr (length idx - searchsorted (rev idx) label (case sd of Left \<Rightarrow> Right | Right \<Rightarrow> Left))
      else
        let first = length (takeWhile (\<lambda>t. t \<noteq> label) idx);
            cnt = count_list idx label
        in if cnt = 0 then Inl KeyError
           else if take cnt (drop first idx) = replicate cnt label
           then Inr (case sd of Left \<Rightarrow> first | Right \<Rightarrow> first + cnt)
           else Inl KeyError)"

text \<open>\<^verbatim>\<open>s.loc[a:b]\<close> and \<^verbatim>\<open>s.loc[a:]\<close>: the rows between the two positions.\<close>

definition loc_between :: "series \<Rightarrow> timestamp \<Rightarrow> timestamp \<Rightarrow> py_error + series" where
  "loc_between s a b =
     (case get_slice_bound (map fst s) a Left of
        Inl e \<Rightarrow> Inl e
      | Inr i \<Rightarrow>
          (case get_slice_bound (map fst s) b Right of
             Inl e \<Rightarrow> Inl e
           | Inr j \<Rightarrow> Inr (take (j - i) (drop i s))))"

definition loc_from :: "series \<Rightarrow> timestamp \<Rightarrow> py_error + series" where
  "loc_from s a =
     (case get_slice_bound (map fst s) a Left of
        Inl e \<Rightarrow> Inl e
      | Inr i \<Rightarrow> Inr (drop i s))"

text \<open>The local variables \<^verbatim>\<open>y_train\<close>, \<^verbatim>\<open>y_test\<close>, \<^verbatim>\<open>all_days\<close> and \<^verbatim>\<open>forecast_days\<close>.\<close>

record windows =
  win_train :: series
  win_test :: series
  win_all_days :: series
  win_forecast_days :: "timestamp list"

text \<open>
  Lines 319 to 335 of \<^verbatim>\<open>get_forecast\<close>, statement by statement. \<^verbatim>\<open>hist.index[-1]\<close> raises on an
  empty history, the date arithmetic and the label slices raise as described above; no
  length is checked.
\<close>

definition get_windows :: "series \<Rightarrow> int \<Rightarrow> int \<Rightarrow> py_error + windows" where
  "get_windows hist validation_days days_to_forecast =
     (case py_index (map fst hist) (- 1) of
        Inl e \<Rightarrow> Inl e
      | Inr last_day \<Rightarrow>
     (case minus_years last_day 2 of
        Inl e \<Rightarrow> Inl e
      | Inr first_day \<Rightarrow>
     (case add_days last_day (- validation_days) of
        Inl e \<Rightarrow> Inl e
      | Inr last_train_day \<Rightarrow>
     (case loc_between hist first_day last_train_day of
        Inl e \<Rightarrow> Inl e
      | Inr y_train \<Rightarrow>
     (case loc_from hist last_train_day of
        Inl e \<Rightarrow> Inl e
      | Inr y_test \<Rightarrow>
     (case loc_from hist first_day of
        Inl e \<Rightarrow> Inl e
      | Inr all_days \<Rightarrow>
     (case add_days last_day days_to_forecast of
        Inl e \<Rightarrow> Inl e
      | Inr last_forecast_day \<Rightarrow>
     (case add_days last_day 1 of
        Inl e \<Rightarrow> Inl e
      | Inr start \<Rightarrow>
          Inr \<lparr>win_train = y_train,
               win_test = y_test,
               win_all_days = all_days,
               win_forecast_days = date_range_B start last_forecast_day\<rparr>))))))))"

subsection \<open>Sequence-model adapter: the training inputs of \<^verbatim>\<open>lstm_model\<close>\<close>

text \<open>
  \<^verbatim>\<open>MinMaxScaler(feature_range=(0,1))\<close>: \<^verbatim>\<open>fit\<close> records the minimum and maximum of the data it
  is given, \<^verbatim>\<open>transform\<close> maps \<open>x\<close> to \<open>x * scale_ + min_\<close> where \<open>scale_\<close> is \<open>1 / (max - min)\<close>
  (a zero range is replaced by 1) and \<open>min_\<close> is \<open>0 - min * scale_\<close>. Both reject an empty
  array with \<^verbatim>\<open>ValueError\<close>.
\<close>

record scaler =
  data_min :: real
  data_max :: real

definition scaler_fit :: "real list \<Rightarrow> py_error + scaler" where
  "scaler_fit xs =
     (if xs = [] then Inl ValueError
      else Inr \<lparr>data_min = Min (set xs), data_max = Max (set xs)\<rparr>)"

definition scale_of :: "scaler \<Rightarrow> real" where
  "scale_of sc =
     (let data_range = data_max sc - data_min sc
      in (1 - 0) / (if data_range = 0 then 1 else data_range))"

definition scaler_transform :: "scaler \<Rightarrow> real list \<Rightarrow> py_error + real list" where
  "scaler_transform sc xs =
     (if xs = [] then Inl ValueError
      else Inr (map (\<lambda>x. x * scale_of sc + (0 - data_min sc * scale_of sc)) xs))"

text \<open>
  The loop \<^verbatim>\<open>for i in range(60, len(ys))\<close> collecting \<^verbatim>\<open>ys[i-60:i]\<close> and \<^verbatim>\<open>ys[i]\<close>.
\<close>

definition lookback_windows :: "real list \<Rightarrow> real list list \<times> real list" where
  "lookback_windows ys =
     (map (\<lambda>i. take 60 (drop (i - 60) ys)) [60..<length ys],
      map (\<lambda>i. ys ! i) [60..<length ys])"

text \<open>
  Lines 147 to 166 of \<^verbatim>\<open>lstm_model\<close>: the scaler is fitted on the concatenation of the
  training and the validation values, both are transformed, and the training windows are
  cut from the scaled training values. The final \<^verbatim>\<open>np.reshape\<close> reads \<^verbatim>\<open>train_X.shape[1]\<close>,
  which does not exist when no window was collected (\<^verbatim>\<open>IndexError\<close>).
\<close>

definition lstm_training_inputs ::
  "real list \<Rightarrow> real list \<Rightarrow> py_error + (real list list \<times> real list)" where
  "lstm_training_inputs trainset testset =
     (case scaler_fit (trainset @ testset) of
        Inl e \<Rightarrow> Inl e
      | Inr sc \<Rightarrow>
          (case scaler_transform sc trainset of
             Inl e \<Rightarrow> Inl e
           | Inr y_train_scaled \<Rightarrow>
               (case scaler_transform sc testset of
                  Inl e \<Rightarrow> Inl e
                | Inr y_test_scaled \<Rightarrow>
                    (case lookback_windows y_train_scaled of
                       (train_X, train_y) \<Rightarrow>
                         if train_X = [] then Inl IndexError else Inr (train_X, train_y)))))"

text \<open>
  Building, compiling and fitting the network (lines 168 to 181) is the work of the Keras
  library. The fit is not seeded: the weights it starts from and the dropout masks are
  random. The library is a parameter that turns these random draws and the training inputs
  into a trained model.
\<close>

definition lstm_train ::
  "('draws \<Rightarrow> real list list \<Rightarrow> real list \<Rightarrow> py_error + 'model) \<Rightarrow> 'draws
     \<Rightarrow> real list \<Rightarrow> real list \<Rightarrow> py_error + 'model" where
  "lstm_train keras_fit draws trainset testset =
     (case lstm_training_inputs trainset testset of
        Inl e \<Rightarrow> Inl e
      | Inr (train_X, train_y) \<Rightarrow> keras_fit draws train_X train_y)"

subsection \<open>The orchestrator \<^verbatim>\<open>get_forecast\<close>\<close>

text \<open>
  A forecast frame is the \<^verbatim>\<open>fc\<close> column of an adapter's \<^verbatim>\<open>fc_df\<close> with its index. The three
  adapters \<^verbatim>\<open>auto_arima_model\<close>, \<^verbatim>\<open>lstm_model\<close> and \<^verbatim>\<open>MCMC_model\<close> are called in this order
  with the same three arguments; each returns its frame and its errors, or raises. They are
  parameters of the orchestrator. The errors are a dictionary of the three measures; the
  value that \<^verbatim>\<open>MH\<close> returns in their place on a forecast run is \<open>None\<close>.
\<close>

type_synonym frame = "(timestamp \<times> real) list"

type_synonym adapter =
  "series \<Rightarrow> series \<Rightarrow> timestamp list \<Rightarrow> py_error + (frame \<times> errors option)"

record adapters =
  run_arima :: adapter
  run_lstm :: adapter
  run_mcmc :: adapter

text \<open>
  Arithmetic on pandas series aligns on the index. With equal indexes the operation is
  positional; otherwise the result is indexed by the sorted union of the labels and holds
  NaN (\<open>None\<close>) wherever a label is missing on one side. NaN is absorbing.
\<close>

type_synonym cell_series = "(timestamp \<times> real option) list"

definition cell_add :: "real option \<Rightarrow> real option \<Rightarrow> real option" where
  "cell_add x y = (case (x, y) of (Some a, Some b) \<Rightarrow> Some (a + b) | _ \<Rightarrow> None)"

definition series_add :: "cell_series \<Rightarrow> cell_series \<Rightarrow> cell_series" where
  "series_add a b =
     (if map fst a = map fst b
      then map (\<lambda>((t, x), (t', y)). (t, cell_add x y)) (zip a b)
      else map (\<lambda>t. (t, (case (map_of a t, map_of b t) of
                            (Some x, Some y) \<Rightarrow> cell_add x y
                          | _ \<Rightarrow> None)))
             (sort (remdups (map fst a @ map fst b))))"

definition series_div :: "cell_series \<Rightarrow> real \<Rightarrow> cell_series" where
  "series_div a c = map (\<lambda>(t, x). (t, map_option (\<lambda>v. v / c) x)) a"

definition fc_column :: "frame \<Rightarrow> cell_series" where
  "fc_column f = map (\<lambda>(t, v). (t, Some v)) f"

text \<open>
  What \<^verbatim>\<open>get_forecast\<close> produces: the error table with its row labels and the five traces of
  the figure. The last trace pairs \<^verbatim>\<open>fc_arima.index\<close> with
  \<^verbatim>\<open>(fc_arima['fc'] + fc_lstm['fc'] + fc_mcmc['fc'])/3\<close>.
\<close>

record forecast_output =
  out_error_df :: "(string \<times> errors option) list"
  out_historical :: series
  out_lstm :: frame
  out_mcmc :: frame
  out_arima :: frame
  out_final_x :: "timestamp list"
  out_final_y :: cell_series

definition get_forecast :: "adapters \<Rightarrow> series \<Rightarrow> int \<Rightarrow> int \<Rightarrow> py_error + forecast_output" where
  "get_forecast ads hist validation_days days_to_forecast =
     (case get_windows hist validation_days days_to_forecast of
        Inl e \<Rightarrow> Inl e
      | Inr w \<Rightarrow>
          (case run_arima ads (win_train w) (win_test w) (win_forecast_days w) of
             Inl e \<Rightarrow> Inl e
           | Inr (fc_arima, errors_arima) \<Rightarrow>
               (case run_lstm ads (win_train w) (win_test w) (win_forecast_days w) of
                  Inl e \<Rightarrow> Inl e
                | Inr (fc_lstm, errors_lstm) \<Rightarrow>
                    (case run_mcmc ads (win_train w) (win_test w) (win_forecast_days w) of
                       Inl e \<Rightarrow> Inl e
                     | Inr (fc_mcmc, errors_mcmc) \<Rightarrow>
                         Inr \<lparr>out_error_df =
                                 [(''ARIMA'', errors_arima), (''LSTM'', errors_lstm),
                                  (''MCMC'', errors_mcmc)],
                               out_historical = win_all_days w,
                               out_lstm = fc_lstm,
                               out_mcmc = fc_mcmc,
                               out_arima = fc_arima,
                               out_final_x = map fst fc_arima,
                               out_final_y =
                                 series_div
                                   (series_add (series_add (fc_column fc_arima) (fc_column fc_lstm))
                                      (fc_column fc_mcmc)) 3\<rparr>))))"

text \<open>
  \<^verbatim>\<open>MCMC_model\<close>: a validation run of \<^verbatim>\<open>MH\<close>, then a forecast run on the concatenated history
  whose second argument is the still empty frame, of which only the length is read; the
  frame is then filled row by row from \<^verbatim>\<open>forecast[i]\<close>.
\<close>

fun fill_fc :: "timestamp list \<Rightarrow> real list \<Rightarrow> py_error + frame" where
  "fill_fc [] forecast = Inr []"
| "fill_fc (new_day # days) [] = Inl IndexError"
| "fill_fc (new_day # days) (v # forecast) =
     (case fill_fc days forecast of Inl e \<Rightarrow> Inl e | Inr rows \<Rightarrow> Inr ((new_day, v) # rows))"

definition MCMC_model ::
  "metrics_lib \<Rightarrow> (nat \<Rightarrow> rand_src) \<Rightarrow> (nat \<Rightarrow> rand_src) \<Rightarrow> adapter" where
  "MCMC_model lib rng_val rng_fc y_train y_test forecast_days =
     (case MH lib rng_val (map snd y_train) (map snd y_test) False of
        Inl e \<Rightarrow> Inl e
      | Inr (val_errors, val_pred) \<Rightarrow>
          let hist_data = map snd y_train @ map snd y_test
          in (case MH lib rng_fc hist_data (map (\<lambda>d. 0) forecast_days) True of
                Inl e \<Rightarrow> Inl e
              | Inr (errs, forecast) \<Rightarrow>
                  (case fill_fc forecast_days forecast of
                     Inl e \<Rightarrow> Inl e
                   | Inr fc_df \<Rightarrow> Inr (fc_df, val_errors))))"

text \<open>Sample data: six trading days, Monday 2024-01-01 to Monday 2024-01-08.\<close>

definition hist_jan2024 :: series where
  "hist_jan2024 =
     [(19723, 100), (19724, 101), (19725, 102), (19726, 103), (19727, 104), (19730, 105)]"

text \<open>The first five of them, Monday to Friday.\<close>

definition hist_5days :: series where
  "hist_5days = [(19723, 100), (19724, 101), (19725, 102), (19726, 103), (19727, 104)]"

text \<open>Sample adapters: each forecasts a constant price on the days it is given.\<close>

definition const_adapter :: "real \<Rightarrow> adapter" where
  "const_adapter c y_train y_test forecast_days =
     Inr (map (\<lambda>d. (d, c)) forecast_days, Some \<lparr>err_mse = 0, err_smape = 0, err_da = 1\<rparr>)"

definition failing_adapter :: "string \<Rightarrow> adapter" where
  "failing_adapter name y_train y_test forecast_days = Inl (AdapterFailure name)"

section \<open>Properties\<close>

subsection \<open>Directional accuracy\<close>

lemma same_direction_bucket:
  "same_direction a p \<longleftrightarrow> sign_bucket a = sign_bucket p"
  by (auto simp: same_direction_def sign_bucket_def)

lemma da_step_hit:
  "da_step actual predicted i c = (if direction_hit actual predicted i then Suc c else c)"
  by (simp add: da_step_def direction_hit_def same_direction_bucket Let_def)

lemma fold_da_step_count:
  "fold (da_step actual predicted) is c = c + length (filter (direction_hit actual predicted) is)"
  by (induction "is" arbitrary: c) (simp_all add: da_step_hit)

lemma hit_indices_filter:
  "hit_indices actual predicted =
     set (filter (direction_hit actual predicted) [1..<length actual])"
  by (auto simp: hit_indices_def)

lemma card_hit_indices:
  "card (hit_indices actual predicted) =
     length (filter (direction_hit actual predicted) [1..<length actual])"
  unfolding hit_indices_filter by (rule distinct_card) simp

lemma fold_da_step_card:
  "fold (da_step actual predicted) [1..<length actual] 0 = card (hit_indices actual predicted)"
  by (simp add: fold_da_step_count card_hit_indices)

lemma card_hit_indices_le:
  "card (hit_indices actual predicted) \<le> length actual - 1"
proof -
  have "length (filter (direction_hit actual predicted) [1..<length actual])
          \<le> length [1..<length actual]"
    by (rule length_filter_le)
  then show ?thesis by (simp add: card_hit_indices)
qed

lemma card_hit_indices_all:
  assumes "\<forall>i. 1 \<le> i \<and> i < length actual \<longrightarrow> direction_hit actual predicted i"
  shows "card (hit_indices actual predicted) = length actual - 1"
proof -
  have "filter (direction_hit actual predicted) [1..<length actual] = [1..<length actual]"
    using assms by (intro filter_True) simp
  then show ?thesis by (simp add: card_hit_indices)
qed

lemma card_hit_indices_none:
  assumes "\<forall>i. 1 \<le> i \<and> i < length actual \<longrightarrow> \<not> direction_hit actual predicted i"
  shows "card (hit_indices actual predicted) = 0"
proof -
  have "filter (direction_hit actual predicted) [1..<length actual] = []"
    using assms by (intro filter_False) simp
  then show ?thesis by (simp add: card_hit_indices)
qed

lemma pred_len_as_real:
  assumes "2 \<le> length (actual :: real list)"
  shows "real_of_int (int (length actual) - 1) = real (length actual - 1)"
  using assms by (cases "length actual") simp_all

lemma calculate_directional_accuracy_value:
  assumes "length actual = length predicted" and "2 \<le> length actual"
  shows "calculate_directional_accuracy actual predicted =
           Inr (real (card (hit_indices actual predicted)) / real (length actual - 1))"
proof -
  have nz: "int (length actual) - 1 \<noteq> 0" using assms(2) by linarith
  have "calculate_directional_accuracy actual predicted =
          Inr (real (fold (da_step actual predicted) [1..<length actual] 0)
                 / real_of_int (int (length actual) - 1))"
    unfolding calculate_directional_accuracy_def Let_def using assms(1) nz by simp
  then show ?thesis
    unfolding fold_da_step_card pred_len_as_real [OF assms(2)] .
qed

text \<open>
  C6. For equal-length sequences of length at least 2 the function returns the number of
  indices \<open>i\<close> in \<open>[1, len)\<close> whose actual and predicted moves (both measured from
  \<open>actual[i-1]\<close>) fall in the same sign bucket, divided by \<open>len - 1\<close>; the value lies in
  \<open>[0,1]\<close>, is 1 when every index matches and 0 when every index is inverted.
\<close>

theorem directional_accuracy_spec:
  assumes "length actual = length predicted" and "2 \<le> length actual"
  shows "\<exists>r. calculate_directional_accuracy actual predicted = Inr r
           \<and> r = real (card (hit_indices actual predicted)) / real (length actual - 1)
           \<and> 0 \<le> r \<and> r \<le> 1
           \<and> ((\<forall>i. 1 \<le> i \<and> i < length actual \<longrightarrow> direction_hit actual predicted i) \<longrightarrow> r = 1)
           \<and> ((\<forall>i. 1 \<le> i \<and> i < length actual \<longrightarrow> \<not> direction_hit actual predicted i) \<longrightarrow> r = 0)"
proof -
  let ?n = "length actual - 1"
  let ?c = "card (hit_indices actual predicted)"
  let ?r = "real ?c / real ?n"
  have npos: "0 < real ?n" using assms(2) by simp
  have le: "real ?c \<le> real ?n" using card_hit_indices_le [of actual predicted] by simp
  have "0 \<le> ?r" by simp
  moreover have "?r \<le> 1" using npos le by (simp add: divide_le_eq_1)
  moreover have "(\<forall>i. 1 \<le> i \<and> i < length actual \<longrightarrow> direction_hit actual predicted i) \<longrightarrow> ?r = 1"
    using npos by (auto simp: card_hit_indices_all)
  moreover have "(\<forall>i. 1 \<le> i \<and> i < length actual \<longrightarrow> \<not> direction_hit actual predicted i) \<longrightarrow> ?r = 0"
    by (auto simp: card_hit_indices_none)
  ultimately show ?thesis
    using calculate_directional_accuracy_value [OF assms] by blast
qed

theorem directional_accuracy_spec_witness:
  "calculate_directional_accuracy [10, 12, 11] [10, 13, 9] = Inr 1
   \<and> calculate_directional_accuracy [10, 12, 11] [10, 9, 13] = Inr 0"
proof -
  have hit: "\<forall>i. 1 \<le> i \<and> i < length [10, 12, 11 :: real]
               \<longrightarrow> direction_hit [10, 12, 11] [10, 13, 9] i"
    by (auto simp: direction_hit_def sign_bucket_def nth_Cons split: nat.splits)
  have miss: "\<forall>i. 1 \<le> i \<and> i < length [10, 12, 11 :: real]
               \<longrightarrow> \<not> direction_hit [10, 12, 11] [10, 9, 13] i"
    by (auto simp: direction_hit_def sign_bucket_def nth_Cons split: nat.splits)
  have "calculate_directional_accuracy [10, 12, 11] [10, 13, 9] = Inr 1"
    using directional_accuracy_spec [of "[10, 12, 11]" "[10, 13, 9]"] hit by auto
  moreover have "calculate_directional_accuracy [10, 12, 11] [10, 9, 13] = Inr 0"
    using directional_accuracy_spec [of "[10, 12, 11]" "[10, 9, 13]"] miss by auto
  ultimately show ?thesis by simp
qed

text \<open>
  C7. On equal-length inputs shorter than 2 the function has no guard of its own: for a
  single element the final division is \<open>0 / 0\<close> and raises \<^verbatim>\<open>ZeroDivisionError\<close>; for empty
  input it is \<open>0 / -1\<close> and a value is returned.
\<close>

theorem directional_accuracy_degenerate:
  "calculate_directional_accuracy [100] [101] = Inl ZeroDivisionError
   \<and> calculate_directional_accuracy [] [] = Inr 0"
  by (simp add: calculate_directional_accuracy_def)

subsection \<open>The stochastic-simulation adapter\<close>

lemma length_sample_pool: "length (sample_pool rb pool i k) = k"
  by (induction k arbitrary: pool i) (simp_all add: Let_def)

lemma mcmc_iter_length:
  "mcmc_iter src i (r, p, pts) = (r', p', pts') \<Longrightarrow> length pts' = Suc (length pts)"
  by (auto simp: mcmc_iter_def Let_def split: if_splits)

lemma fold_mcmc_iter_length:
  "fold (mcmc_iter src) is (r, p, pts) = (r', p', pts') \<Longrightarrow> length pts' = length pts + length is"
proof (induction "is" arbitrary: r p pts)
  case Nil
  then show ?case by simp
next
  case (Cons a "is")
  obtain r1 p1 pts1 where st: "mcmc_iter src a (r, p, pts) = (r1, p1, pts1)"
    by (cases "mcmc_iter src a (r, p, pts)") auto
  from Cons.prems st have "fold (mcmc_iter src) is (r1, p1, pts1) = (r', p', pts')" by simp
  from Cons.IH [OF this] mcmc_iter_length [OF st] show ?case by simp
qed

lemma length_MCMC: "length (MCMC src n) = 1000"
proof -
  obtain r p pts where f: "fold (mcmc_iter src) [0..<N] (0, q 0, []) = (r, p, pts)"
    by (cases "fold (mcmc_iter src) [0..<N] (0, q 0, [])") auto
  from fold_mcmc_iter_length [OF f] have "length pts = N" by simp
  then have "length (MCMC src n) = N"
    unfolding MCMC_def f by (simp add: random_sample_def length_sample_pool)
  then show ?thesis by (simp add: N_def)
qed

lemma py_index_nonneg:
  "py_index xs (int k) = (if k < length xs then Inr (xs ! k) else Inl IndexError)"
  by (simp add: py_index_def Let_def)

lemma py_index_back:
  assumes "length xs = Suc i"
  shows "py_index xs (- int i) = Inr (xs ! (if i = 0 then 0 else 1))"
proof (cases "i = 0")
  case True
  with assms show ?thesis by (simp add: py_index_def)
next
  case False
  then have "- int i < 0" by simp
  moreover have "- int i + int (length xs) = 1" using assms by simp
  ultimately show ?thesis using False assms by (simp add: py_index_def Let_def)
qed

lemma py_index_noise:
  "py_index (MCMC (rng t) N) (int t + 5) =
     (if t + 5 < 1000 then Inr (noise rng t) else Inl IndexError)"
proof -
  have "int t + 5 = int (t + 5)" by simp
  then show ?thesis
    by (simp only: py_index_nonneg length_MCMC noise_def)
qed

lemma MH_loop_unfold:
  assumes "timestep < steps" and "length stock_pred = timestep" and "i + 1 = timestep"
  shows "MH_loop rng delta_t steps timestep i stock_pred =
           (if timestep + 5 < 1000
            then MH_loop rng delta_t steps (timestep + 1) (i + 1)
                   (stock_pred @ [stock_pred ! (if i = 0 then 0 else 1) * growth delta_t (noise rng timestep)])
            else Inl IndexError)"
proof -
  have len: "length stock_pred = Suc i" using assms by simp
  show ?thesis
    by (subst MH_loop.simps) (simp add: assms(1) py_index_back [OF len] py_index_noise)
qed

lemma MH_loop_done:
  "\<not> timestep < steps \<Longrightarrow> MH_loop rng delta_t steps timestep i stock_pred = Inr stock_pred"
  by (subst MH_loop.simps) simp

lemma MH_loop_overflow:
  assumes "995 < steps" and "1 \<le> timestep" and "timestep \<le> 995"
    and "length stock_pred = timestep" and "i + 1 = timestep"
  shows "MH_loop rng delta_t steps timestep i stock_pred = Inl IndexError"
  using assms
proof (induction "995 - timestep" arbitrary: timestep i stock_pred)
  case 0
  then have t: "timestep = 995" by simp
  have "timestep < steps" using t "0.prems"(1) by simp
  from MH_loop_unfold [OF this "0.prems"(4) "0.prems"(5)] show ?case
    by (simp add: t)
next
  case (Suc n)
  have lt: "timestep < steps" using Suc.prems(1) Suc.prems(3) by simp
  have small: "timestep + 5 < 1000" using Suc.hyps(2) by simp
  let ?sp = "stock_pred @ [stock_pred ! (if i = 0 then 0 else 1) * growth delta_t (noise rng timestep)]"
  have step: "MH_loop rng delta_t steps timestep i stock_pred =
                MH_loop rng delta_t steps (timestep + 1) (i + 1) ?sp"
    using MH_loop_unfold [OF lt Suc.prems(4) Suc.prems(5)] small by simp
  have "MH_loop rng delta_t steps (timestep + 1) (i + 1) ?sp = Inl IndexError"
  proof (rule Suc.hyps(1))
    show "n = 995 - (timestep + 1)" using Suc.hyps(2) by simp
    show "995 < steps" by (rule Suc.prems(1))
    show "1 \<le> timestep + 1" by simp
    show "timestep + 1 \<le> 995" using Suc.hyps(2) by simp
    show "length ?sp = timestep + 1" using Suc.prems(4) by simp
    show "i + 1 + 1 = timestep + 1" using Suc.prems(5) by simp
  qed
  with step show ?case by simp
qed

lemma MH_loop_in_range:
  assumes "steps \<le> 995" and "1 \<le> timestep" and "timestep \<le> steps"
    and "length stock_pred = timestep" and "i + 1 = timestep"
  shows "\<exists>ps. MH_loop rng delta_t steps timestep i stock_pred = Inr ps
           \<and> length ps = steps \<and> take timestep ps = stock_pred
           \<and> (\<forall>t. timestep \<le> t \<and> t < steps \<longrightarrow>
                 ps ! t = ps ! (if t = 1 then 0 else 1) * growth delta_t (noise rng t))"
  using assms
proof (induction "steps - timestep" arbitrary: timestep i stock_pred)
  case 0
  then have "\<not> timestep < steps" and "timestep = steps" by simp_all
  then show ?case using "0.prems"(4) by (simp add: MH_loop_done)
next
  case (Suc n)
  have lt: "timestep < steps" using Suc.hyps(2) by simp
  have small: "timestep + 5 < 1000" using lt Suc.prems(1) by simp
  let ?b = "if i = 0 then 0 else (1::nat)"
  let ?sp = "stock_pred @ [stock_pred ! ?b * growth delta_t (noise rng timestep)]"
  have b_eq: "?b = (if timestep = 1 then 0 else 1)" using Suc.prems(5) by auto
  have b_lt: "?b < timestep" using Suc.prems(2) Suc.prems(5) by auto
  have step: "MH_loop rng delta_t steps timestep i stock_pred =
                MH_loop rng delta_t steps (timestep + 1) (i + 1) ?sp"
    using MH_loop_unfold [OF lt Suc.prems(4) Suc.prems(5)] small by simp
  have "\<exists>ps. MH_loop rng delta_t steps (timestep + 1) (i + 1) ?sp = Inr ps
           \<and> length ps = steps \<and> take (timestep + 1) ps = ?sp
           \<and> (\<forall>t. timestep + 1 \<le> t \<and> t < steps \<longrightarrow>
                 ps ! t = ps ! (if t = 1 then 0 else 1) * growth delta_t (noise rng t))"
  proof (rule Suc.hyps(1))
    show "n = steps - (timestep + 1)" using Suc.hyps(2) by simp
    show "steps \<le> 995" by (rule Suc.prems(1))
    show "1 \<le> timestep + 1" by simp
    show "timestep + 1 \<le> steps" using lt by simp
    show "length ?sp = timestep + 1" using Suc.prems(4) by simp
    show "i + 1 + 1 = timestep + 1" using Suc.prems(5) by simp
  qed
  then obtain ps where run: "MH_loop rng delta_t steps (timestep + 1) (i + 1) ?sp = Inr ps"
    and len: "length ps = steps" and pre: "take (timestep + 1) ps = ?sp"
    and later: "\<forall>t. timestep + 1 \<le> t \<and> t < steps \<longrightarrow>
                 ps ! t = ps ! (if t = 1 then 0 else 1) * growth delta_t (noise rng t)"
    by blast
  have nth_pre: "ps ! k = ?sp ! k" if "k < timestep + 1" for k
  proof -
    have "take (timestep + 1) ps ! k = ps ! k" using that by simp
    then show ?thesis using pre by simp
  qed
  have pre': "take timestep ps = stock_pred"
  proof -
    have "take timestep ps = take timestep (take (timestep + 1) ps)" by (simp add: min_def)
    also have "\<dots> = take timestep ?sp" using pre by simp
    also have "\<dots> = stock_pred" using Suc.prems(4) by simp
    finally show ?thesis .
  qed
  have at_b: "ps ! ?b = stock_pred ! ?b"
  proof -
    have "ps ! ?b = ?sp ! ?b" using b_lt by (intro nth_pre) simp
    also have "\<dots> = stock_pred ! ?b" using b_lt Suc.prems(4) by (simp add: nth_append)
    finally show ?thesis .
  qed
  have at_t: "ps ! timestep = ps ! (if timestep = 1 then 0 else 1) * growth delta_t (noise rng timestep)"
  proof -
    have "ps ! timestep = ?sp ! timestep" by (intro nth_pre) simp
    also have "\<dots> = stock_pred ! ?b * growth delta_t (noise rng timestep)"
      using Suc.prems(4) by (simp add: nth_append)
    also have "\<dots> = ps ! ?b * growth delta_t (noise rng timestep)" using at_b by simp
    finally show ?thesis using b_eq by simp
  qed
  have all: "\<forall>t. timestep \<le> t \<and> t < steps \<longrightarrow>
                 ps ! t = ps ! (if t = 1 then 0 else 1) * growth delta_t (noise rng t)"
  proof (intro allI impI)
    fix t assume t: "timestep \<le> t \<and> t < steps"
    show "ps ! t = ps ! (if t = 1 then 0 else 1) * growth delta_t (noise rng t)"
    proof (cases "t = timestep")
      case True
      then show ?thesis using at_t by simp
    next
      case False
      then have "timestep + 1 \<le> t \<and> t < steps" using t by simp
      then show ?thesis using later by blast
    qed
  qed
  show ?case using step run len pre' all by simp
qed

lemma py_index_last:
  "py_index xs (- 1) = (if xs = [] then Inl IndexError else Inr (last xs))"
proof (cases "xs = []")
  case True
  then show ?thesis by (simp add: py_index_def)
next
  case False
  then have "0 < length xs" by simp
  then have "nat (- 1 + int (length xs)) = length xs - 1" by linarith
  with False show ?thesis by (simp add: py_index_def Let_def last_conv_nth)
qed

lemma MH_overflow:
  assumes "995 < length y_test"
  shows "MH lib rng y_train y_test is_forecast = Inl IndexError"
proof (cases "y_train = []")
  case True
  have "y_test \<noteq> []" using assms by auto
  then show ?thesis using True by (simp add: MH_def py_index_last Let_def)
next
  case False
  have ne: "y_test \<noteq> []" using assms by auto
  have "MH_loop rng (maturnity / real (length y_test)) (length y_test) 1 0 [last y_train]
          = Inl IndexError"
    using assms by (intro MH_loop_overflow) simp_all
  then show ?thesis using False ne by (simp add: MH_def py_index_last Let_def)
qed

lemma MH_forecast_in_range:
  assumes "y_train \<noteq> []" and "1 \<le> length y_test" and "length y_test \<le> 995"
  shows "\<exists>ps. MH_loop rng (maturnity / real (length y_test)) (length y_test) 1 0 [last y_train] = Inr ps
           \<and> length ps = length y_test
           \<and> MH lib rng y_train y_test True = Inr (None, ps)"
proof -
  have "\<exists>ps. MH_loop rng (maturnity / real (length y_test)) (length y_test) 1 0 [last y_train] = Inr ps
           \<and> length ps = length y_test \<and> take 1 ps = [last y_train]
           \<and> (\<forall>t. 1 \<le> t \<and> t < length y_test \<longrightarrow>
                 ps ! t = ps ! (if t = 1 then 0 else 1)
                            * growth (maturnity / real (length y_test)) (noise rng t))"
    using assms(2,3) by (intro MH_loop_in_range) simp_all
  then obtain ps where
    run: "MH_loop rng (maturnity / real (length y_test)) (length y_test) 1 0 [last y_train] = Inr ps"
    and len: "length ps = length y_test"
    by blast
  have ne: "y_test \<noteq> []" using assms(2) by auto
  have "MH lib rng y_train y_test True = Inr (None, ps)"
    using assms(1) ne run by (simp add: MH_def py_index_last Let_def)
  with run len show ?thesis by blast
qed

lemma MCMC_model_overflow:
  assumes "995 < length y_test"
  shows "MCMC_model lib rng_val rng_fc y_train y_test forecast_days = Inl IndexError"
proof -
  have "995 < length (map snd y_test)" using assms by simp
  then have "MH lib rng_val (map snd y_train) (map snd y_test) False = Inl IndexError"
    by (rule MH_overflow)
  then show ?thesis by (simp add: MCMC_model_def)
qed

text \<open>
  C10. The noise array always has 1000 entries and is read at \<open>timestep + 5\<close>. A validation
  or forecast series longer than 995 points makes the read at timestep 995 leave the array:
  the loop, and with it \<^verbatim>\<open>MH\<close> and the adapter \<^verbatim>\<open>MCMC_model\<close>, ends in \<^verbatim>\<open>IndexError\<close>. For 1 to
  995 points every read is in range: the loop completes with one price per point. With no
  point at all the noise is never read (the division by \<open>steps\<close> fails first).
\<close>

theorem MH_noise_index_bound:
  "length (MCMC src n) = 1000
   \<and> (995 < length y_test \<longrightarrow>
        MH_loop rng (maturnity / real (length y_test)) (length y_test) 1 0 [first_price] = Inl IndexError
        \<and> MH lib rng y_train y_test is_forecast = Inl IndexError)
   \<and> (995 < length test_series \<longrightarrow>
        MCMC_model lib rng rng_fc train_series test_series forecast_days = Inl IndexError)
   \<and> (y_test = [] \<longrightarrow> MH lib rng y_train y_test is_forecast = Inl ZeroDivisionError)
   \<and> (y_train \<noteq> [] \<and> 1 \<le> length y_test \<and> length y_test \<le> 995 \<longrightarrow>
        (\<exists>ps. MH_loop rng (maturnity / real (length y_test)) (length y_test) 1 0 [last y_train] = Inr ps
           \<and> length ps = length y_test
           \<and> MH lib rng y_train y_test True = Inr (None, ps)))"
proof (intro conjI impI)
  show "length (MCMC src n) = 1000" by (rule length_MCMC)
next
  assume "995 < length y_test"
  then show "MH_loop rng (maturnity / real (length y_test)) (length y_test) 1 0 [first_price] = Inl IndexError"
    by (intro MH_loop_overflow) simp_all
next
  assume "995 < length y_test"
  then show "MH lib rng y_train y_test is_forecast = Inl IndexError" by (rule MH_overflow)
next
  assume "995 < length test_series"
  then show "MCMC_model lib rng rng_fc train_series test_series forecast_days = Inl IndexError"
    by (rule MCMC_model_overflow)
next
  assume "y_test = []"
  then show "MH lib rng y_train y_test is_forecast = Inl ZeroDivisionError"
    by (simp add: MH_def)
next
  assume "y_train \<noteq> [] \<and> 1 \<le> length y_test \<and> length y_test \<le> 995"
  then show "\<exists>ps. MH_loop rng (maturnity / real (length y_test)) (length y_test) 1 0 [last y_train] = Inr ps
           \<and> length ps = length y_test
           \<and> MH lib rng y_train y_test True = Inr (None, ps)"
    by (intro MH_forecast_in_range) simp_all
qed

theorem MH_noise_index_bound_witness:
  "MH \<lparr>mean_squared_error = (\<lambda>a b. Inr 0), smape = (\<lambda>a b. Inr 0)\<rparr> (\<lambda>t. still_src)
      [100] (replicate 996 100) False = Inl IndexError
   \<and> MCMC_model \<lparr>mean_squared_error = (\<lambda>a b. Inr 0), smape = (\<lambda>a b. Inr 0)\<rparr>
        (\<lambda>t. still_src) (\<lambda>t. still_src) [(0, 100)] (replicate 996 (1, 100)) [2, 3]
       = Inl IndexError
   \<and> (\<exists>ps. length ps = 995
         \<and> MH \<lparr>mean_squared_error = (\<lambda>a b. Inr 0), smape = (\<lambda>a b. Inr 0)\<rparr> (\<lambda>t. still_src)
              [100] (replicate 995 100) True = Inr (None, ps))"
proof -
  let ?lib = "\<lparr>mean_squared_error = (\<lambda>a b. Inr 0), smape = (\<lambda>a b. Inr (0::real))\<rparr>
                :: metrics_lib"
  have "MH ?lib (\<lambda>t. still_src) [100] (replicate 996 100) False = Inl IndexError"
    using MH_noise_index_bound [where y_test = "replicate 996 100" and rng = "\<lambda>t. still_src"
        and lib = ?lib and y_train = "[100]" and is_forecast = False and src = still_src
        and n = 0 and first_price = 100 and test_series = "[]" and rng_fc = "\<lambda>t. still_src"
        and train_series = "[]" and forecast_days = "[]"]
    by simp
  moreover have "MCMC_model ?lib (\<lambda>t. still_src) (\<lambda>t. still_src) [(0, 100)]
                   (replicate 996 (1, 100)) [2, 3] = Inl IndexError"
    using MH_noise_index_bound [where y_test = "[]" and rng = "\<lambda>t. still_src"
        and lib = ?lib and y_train = "[]" and is_forecast = False and src = still_src
        and n = 0 and first_price = 100 and test_series = "replicate 996 (1, 100)"
        and rng_fc = "\<lambda>t. still_src" and train_series = "[(0, 100)]"
        and forecast_days = "[2, 3]"]
    by simp
  moreover have "\<exists>ps. length ps = 995
         \<and> MH ?lib (\<lambda>t. still_src) [100] (replicate 995 100) True = Inr (None, ps)"
    using MH_noise_index_bound [where y_test = "replicate 995 100" and rng = "\<lambda>t. still_src"
        and lib = ?lib and y_train = "[100]" and is_forecast = True and src = still_src
        and n = 0 and first_price = 100 and test_series = "[]" and rng_fc = "\<lambda>t. still_src"
        and train_series = "[]" and forecast_days = "[]"]
    by auto
  ultimately show ?thesis by simp
qed

lemma fold_mcmc_iter_still:
  "fold (mcmc_iter still_src) [0..<n] (0, q 0, []) = (0, q 0, replicate n 0)"
proof (induction n)
  case 0
  then show ?case by simp
next
  case (Suc n)
  have "mcmc_iter still_src n (0, q 0, replicate n 0) = (0, q 0, replicate n 0 @ [0])"
    by (simp add: mcmc_iter_def still_src_def)
  then show ?case using Suc by (simp add: replicate_append_same)
qed

lemma sample_pool_const:
  assumes "set pool \<subseteq> {c}" and "i + k \<le> length pool"
  shows "sample_pool rb pool i k = replicate k c"
  using assms
proof (induction k arbitrary: pool i)
  case 0
  then show ?case by simp
next
  case (Suc k)
  let ?n = "length pool"
  let ?j = "rb i mod (?n - i)"
  have pos: "0 < ?n - i" using Suc.prems(2) by simp
  have "?j < ?n - i" by (rule mod_less_divisor [OF pos])
  then have j: "?j < ?n" by linarith
  have hd: "pool ! ?j = c" using nth_mem [OF j] Suc.prems(1) by blast
  have "?n - i - 1 < ?n" using pos by simp
  then have moved: "pool ! (?n - i - 1) = c" using Suc.prems(1) nth_mem by fastforce
  have "set (pool[?j := pool ! (?n - i - 1)]) \<subseteq> insert (pool ! (?n - i - 1)) (set pool)"
    by (rule set_update_subset_insert)
  then have sub: "set (pool[?j := pool ! (?n - i - 1)]) \<subseteq> {c}"
    using moved Suc.prems(1) by auto
  have "sample_pool rb (pool[?j := pool ! (?n - i - 1)]) (Suc i) k = replicate k c"
    using sub Suc.prems(2) by (intro Suc.IH) simp_all
  then show ?case using hd by (simp add: Let_def)
qed

lemma MCMC_still: "MCMC still_src n = replicate 1000 0"
proof -
  have "MCMC still_src n = random_sample still_src (replicate N 0) N"
    by (simp add: MCMC_def fold_mcmc_iter_still)
  also have "\<dots> = replicate N 0"
    unfolding random_sample_def by (rule sample_pool_const) auto
  finally show ?thesis by (simp add: N_def)
qed

lemma noise_still: "t + 5 < 1000 \<Longrightarrow> noise (\<lambda>t. still_src) t = 0"
  by (simp add: noise_def MCMC_still)

lemma MH_loop_four:
  "MH_loop rng dt 4 (Suc 0) 0 [p0] =
     Inr [p0, p0 * growth dt (noise rng (Suc 0)),
          p0 * growth dt (noise rng (Suc 0)) * growth dt (noise rng 2),
          p0 * growth dt (noise rng (Suc 0)) * growth dt (noise rng 3)]"
proof -
  let ?p1 = "p0 * growth dt (noise rng (Suc 0))"
  let ?p2 = "?p1 * growth dt (noise rng 2)"
  let ?p3 = "?p1 * growth dt (noise rng 3)"
  have "MH_loop rng dt 4 (Suc 0) 0 [p0] = MH_loop rng dt 4 2 1 [p0, ?p1]"
    using MH_loop_unfold [of "Suc 0" 4 "[p0]" 0 rng dt] by (simp add: numeral_2_eq_2)
  also have "\<dots> = MH_loop rng dt 4 3 2 [p0, ?p1, ?p2]"
    using MH_loop_unfold [of 2 4 "[p0, ?p1]" 1 rng dt] by (simp add: numeral_3_eq_3 numeral_2_eq_2)
  also have "\<dots> = MH_loop rng dt 4 4 3 [p0, ?p1, ?p2, ?p3]"
    using MH_loop_unfold [of 3 4 "[p0, ?p1, ?p2]" 2 rng dt] by simp
  also have "\<dots> = Inr [p0, ?p1, ?p2, ?p3]"
    by (rule MH_loop_done) simp
  finally show ?thesis .
qed

lemma growth_still_gt_1: "1 < growth (1 / 4) 0"
  by (simp add: growth_def risk_free_def volatility_def power2_eq_square)

text \<open>
  C8. The loop takes its base price from \<^verbatim>\<open>stock_pred[-i]\<close> with \<open>i = timestep - 1\<close>, which
  is the element at position 1 from the second iteration on, not the previous prediction.
  On a four-point series with a still noise source the third step therefore multiplies the
  first prediction, and its result differs from the previous prediction times the factor.
\<close>

theorem MH_third_step_uses_first_prediction:
  "(let g = growth (1 / 4) 0
    in MH_loop (\<lambda>t. still_src) (maturnity / real (length [100, 101, 102, 103 :: real])) 4 1 0 [100]
         = Inr [100, 100 * g, 100 * g * g, 100 * g * g]
       \<and> MH lib (\<lambda>t. still_src) [100] [100, 101, 102, 103] True
         = Inr (None, [100, 100 * g, 100 * g * g, 100 * g * g])
       \<and> 100 * g * g \<noteq> (100 * g * g) * g)"
proof -
  let ?g = "growth (1 / 4) 0"
  have run: "MH_loop (\<lambda>t. still_src) (maturnity / real (length [100, 101, 102, 103 :: real])) 4 1 0 [100]
               = Inr [100, 100 * ?g, 100 * ?g * ?g, 100 * ?g * ?g]"
    by (simp add: maturnity_def MH_loop_four noise_still)
  have len4: "length [100, 101, 102, 103 :: real] = 4" by simp
  have mh: "MH lib (\<lambda>t. still_src) [100] [100, 101, 102, 103] True
              = Inr (None, [100, 100 * ?g, 100 * ?g * ?g, 100 * ?g * ?g])"
    unfolding MH_def Let_def len4
    by (simp add: py_index_last maturnity_def MH_loop_four noise_still)
  have g: "1 < ?g" by (rule growth_still_gt_1)
  then have "100 * ?g * ?g \<noteq> (100 * ?g * ?g) * ?g" by simp
  with run mh show ?thesis unfolding Let_def by blast
qed

subsection \<open>Windowing\<close>

lemma sorted_take_upto:
  "sorted (map f xs) \<Longrightarrow> take (length (filter (\<lambda>x. f x \<le> b) xs)) xs = filter (\<lambda>x. f x \<le> (b::int)) xs"
proof (induction xs)
  case Nil
  then show ?case by simp
next
  case (Cons x xs)
  show ?case
  proof (cases "f x \<le> b")
    case True
    then show ?thesis using Cons by simp
  next
    case False
    then have "\<forall>y\<in>set xs. \<not> f y \<le> b" using Cons.prems by auto
    then have "filter (\<lambda>x. f x \<le> b) xs = []" by (simp add: filter_empty_conv)
    then show ?thesis using False by simp
  qed
qed

lemma sorted_drop_below:
  "sorted (map f xs) \<Longrightarrow> drop (length (filter (\<lambda>x. f x < a) xs)) xs = filter (\<lambda>x. (a::int) \<le> f x) xs"
proof (induction xs)
  case Nil
  then show ?case by simp
next
  case (Cons x xs)
  show ?case
  proof (cases "f x < a")
    case True
    then show ?thesis using Cons by simp
  next
    case False
    then have all: "\<forall>y\<in>set xs. a \<le> f y" using Cons.prems by auto
    then have "filter (\<lambda>x. f x < a) xs = []" by (auto simp: filter_empty_conv)
    moreover have "filter (\<lambda>x. a \<le> f x) xs = xs" using all by (simp add: filter_id_conv)
    ultimately show ?thesis using False by simp
  qed
qed

lemma length_filter_mono:
  "(\<And>x. P x \<Longrightarrow> Q x) \<Longrightarrow> length (filter P xs) \<le> length (filter Q xs)"
  by (induction xs) auto

lemma get_slice_bound_sorted:
  "sorted idx \<Longrightarrow> get_slice_bound idx label sd = Inr (searchsorted idx label sd)"
  by (simp add: get_slice_bound_def)

lemma searchsorted_map_fst:
  "searchsorted (map fst s) a Left = length (filter (\<lambda>x. fst x < a) s)"
  "searchsorted (map fst s) b Right = length (filter (\<lambda>x. fst x \<le> b) s)"
  by (simp_all add: searchsorted_def filter_map comp_def)

lemma loc_from_sorted:
  assumes "sorted (map fst s)"
  shows "loc_from s a = Inr (filter (\<lambda>(t, p). a \<le> t) s)"
proof -
  have "drop (length (filter (\<lambda>x. fst x < a) s)) s = filter (\<lambda>x. a \<le> fst x) s"
    by (rule sorted_drop_below [OF assms])
  then show ?thesis
    by (simp add: loc_from_def get_slice_bound_sorted [OF assms] searchsorted_map_fst
        split_def)
qed

lemma loc_between_sorted:
  assumes "sorted (map fst s)"
  shows "loc_between s a b = Inr (filter (\<lambda>(t, p). a \<le> t \<and> t \<le> b) s)"
proof -
  let ?i = "length (filter (\<lambda>x. fst x < a) s)"
  let ?j = "length (filter (\<lambda>x. fst x \<le> b) s)"
  let ?ys = "filter (\<lambda>x. fst x \<le> b) s"
  have tk: "take ?j s = ?ys" by (rule sorted_take_upto [OF assms])
  have "take (?j - ?i) (drop ?i s) = drop ?i (take ?j s)" by (simp add: drop_take)
  also have "\<dots> = drop ?i ?ys" by (simp only: tk)
  also have "\<dots> = filter (\<lambda>x. a \<le> fst x \<and> fst x \<le> b) s"
  proof (cases "a \<le> b")
    case True
    have same: "filter (\<lambda>x. fst x < a) ?ys = filter (\<lambda>x. fst x < a) s"
      using True by (auto intro: filter_cong)
    have srt: "sorted (map fst ?ys)" using assms by (rule sorted_filter)
    have "drop (length (filter (\<lambda>x. fst x < a) ?ys)) ?ys = filter (\<lambda>x. a \<le> fst x) ?ys"
      by (rule sorted_drop_below [OF srt])
    then have "drop ?i ?ys = filter (\<lambda>x. a \<le> fst x) ?ys" by (simp only: same)
    also have "\<dots> = filter (\<lambda>x. a \<le> fst x \<and> fst x \<le> b) s"
      by (simp add: conj_commute)
    finally show ?thesis .
  next
    case False
    have "length ?ys \<le> ?i" using False by (intro length_filter_mono) simp
    then have "drop ?i ?ys = []" by simp
    moreover have "filter (\<lambda>x. a \<le> fst x \<and> fst x \<le> b) s = []"
      using False by (auto simp: filter_empty_conv)
    ultimately show ?thesis by simp
  qed
  finally have "take (?j - ?i) (drop ?i s) = filter (\<lambda>x. a \<le> fst x \<and> fst x \<le> b) s" .
  then show ?thesis
    by (simp add: loc_between_def get_slice_bound_sorted [OF assms] searchsorted_map_fst
        split_def)
qed

lemma add_days_Inr: "add_days t n = Inr r \<Longrightarrow> r = t + n"
  by (auto simp: add_days_def split: if_splits)

lemma minus_years_jan2024: "minus_years 19730 2 = Inr 19000"
  by code_simp

lemma minus_years_5days: "minus_years 19727 2 = Inr 18997"
  by code_simp

lemma sorted_jan2024: "sorted (map fst hist_jan2024)"
  by (simp add: hist_jan2024_def)

lemma sorted_5days: "sorted (map fst hist_5days)"
  by (simp add: hist_5days_def)

lemma get_windows_jan2024:
  "get_windows hist_jan2024 7 30 =
     Inr \<lparr>win_train = [(19723, 100)], win_test = hist_jan2024, win_all_days = hist_jan2024,
          win_forecast_days = date_range_B 19731 19760\<rparr>"
proof -
  have last: "py_index (map fst hist_jan2024) (- 1) = Inr 19730"
    by (simp add: py_index_last hist_jan2024_def)
  have d1: "add_days 19730 (- 7) = Inr 19723" "add_days 19730 30 = Inr 19760"
    "add_days 19730 1 = Inr 19731"
    by (simp_all add: add_days_def ts_min_def ts_max_def)
  have tr: "loc_between hist_jan2024 19000 19723 = Inr [(19723, 100)]"
    unfolding loc_between_sorted [OF sorted_jan2024] by (simp add: hist_jan2024_def)
  have te: "loc_from hist_jan2024 19723 = Inr hist_jan2024"
    unfolding loc_from_sorted [OF sorted_jan2024] by (simp add: hist_jan2024_def)
  have al: "loc_from hist_jan2024 19000 = Inr hist_jan2024"
    unfolding loc_from_sorted [OF sorted_jan2024] by (simp add: hist_jan2024_def)
  show ?thesis
    by (simp add: get_windows_def last minus_years_jan2024 d1 tr te al)
qed

lemma get_windows_5days:
  "get_windows hist_5days 90 30 =
     Inr \<lparr>win_train = [], win_test = hist_5days, win_all_days = hist_5days,
          win_forecast_days = date_range_B 19728 19757\<rparr>"
proof -
  have last: "py_index (map fst hist_5days) (- 1) = Inr 19727"
    by (simp add: py_index_last hist_5days_def)
  have d1: "add_days 19727 (- 90) = Inr 19637" "add_days 19727 30 = Inr 19757"
    "add_days 19727 1 = Inr 19728"
    by (simp_all add: add_days_def ts_min_def ts_max_def)
  have tr: "loc_between hist_5days 18997 19637 = Inr []"
    unfolding loc_between_sorted [OF sorted_5days] by (simp add: hist_5days_def)
  have te: "loc_from hist_5days 19637 = Inr hist_5days"
    unfolding loc_from_sorted [OF sorted_5days] by (simp add: hist_5days_def)
  have al: "loc_from hist_5days 18997 = Inr hist_5days"
    unfolding loc_from_sorted [OF sorted_5days] by (simp add: hist_5days_def)
  show ?thesis
    by (simp add: get_windows_def last minus_years_5days d1 tr te al)
qed

lemma get_windows_empty: "get_windows [] validation_days days_to_forecast = Inl IndexError"
  by (simp add: get_windows_def py_index_last)

lemma get_windows_sorted:
  assumes "hist \<noteq> []" and "sorted (map fst hist)"
    and "minus_years (fst (last hist)) 2 = Inr first_day"
    and "add_days (fst (last hist)) (- validation_days) = Inr last_train_day"
    and "add_days (fst (last hist)) days_to_forecast = Inr last_forecast_day"
    and "add_days (fst (last hist)) 1 = Inr start"
  shows "get_windows hist validation_days days_to_forecast =
           Inr \<lparr>win_train = filter (\<lambda>(t, p). first_day \<le> t \<and> t \<le> last_train_day) hist,
                win_test = filter (\<lambda>(t, p). last_train_day \<le> t) hist,
                win_all_days = filter (\<lambda>(t, p). first_day \<le> t) hist,
                win_forecast_days = date_range_B start last_forecast_day\<rparr>"
proof -
  have last: "py_index (map fst hist) (- 1) = Inr (fst (last hist))"
    using assms(1) by (simp add: py_index_last last_map)
  show ?thesis
    by (simp add: get_windows_def last assms(3-6) loc_between_sorted [OF assms(2)]
        loc_from_sorted [OF assms(2)])
qed

lemma last_train_day_in_both:
  assumes "hist \<noteq> []" and "sorted (map fst hist)"
    and "get_windows hist validation_days days_to_forecast = Inr w"
    and "(t, p) \<in> set hist" and "t = fst (last hist) - validation_days"
    and "minus_years (fst (last hist)) 2 = Inr first_day" and "first_day \<le> t"
  shows "(t, p) \<in> set (win_train w) \<inter> set (win_test w)"
proof -
  have last: "py_index (map fst hist) (- 1) = Inr (fst (last hist))"
    using assms(1) by (simp add: py_index_last last_map)
  obtain ltd where ltd: "add_days (fst (last hist)) (- validation_days) = Inr ltd"
    using assms(3) by (auto simp: get_windows_def last assms(6) split: sum.splits)
  have ltd_eq: "ltd = t" using add_days_Inr [OF ltd] assms(5) by simp
  have "win_train w = filter (\<lambda>(t, p). first_day \<le> t \<and> t \<le> ltd) hist
        \<and> win_test w = filter (\<lambda>(t, p). ltd \<le> t) hist"
    using assms(3)
    by (auto simp: get_windows_def last assms(6) ltd loc_between_sorted [OF assms(2)]
        loc_from_sorted [OF assms(2)] split: sum.splits)
  then show ?thesis using assms(4,7) ltd_eq by simp
qed

text \<open>
  C1. Both slices include their end points, so the row of \<^verbatim>\<open>last_train_day\<close> is selected for
  the training series and for the validation series. For the six trading days from
  2024-01-01 to 2024-01-08 and seven validation days, 2024-01-01 is in both.
\<close>

theorem windows_overlap_on_last_train_day:
  "\<exists>w. get_windows hist_jan2024 7 30 = Inr w
       \<and> win_train w = [(19723, 100)]
       \<and> win_test w = hist_jan2024
       \<and> (19723, 100) \<in> set (win_train w) \<inter> set (win_test w)"
  by (simp add: get_windows_jan2024) (simp add: hist_jan2024_def)

text \<open>
  C5, as stated, fails: five trading days with 90 validation days give an empty training
  series and the windowing step still succeeds.
\<close>

theorem short_history_windows_counterexample:
  "get_windows hist_5days 90 30 =
     Inr \<lparr>win_train = [], win_test = hist_5days, win_all_days = hist_5days,
          win_forecast_days = date_range_B 19728 19757\<rparr>"
  by (rule get_windows_5days)

text \<open>
  C5, amended. The windowing step checks no length. Whenever the history is not empty, its
  index is increasing and the four date computations succeed, the step returns the two
  inclusive slices, whatever their lengths, and the orchestrator goes on to call the first
  adapter on them: an error of that adapter is the result of the run.
\<close>

theorem windowing_checks_no_length:
  assumes "hist \<noteq> []" and "sorted (map fst hist)"
    and "minus_years (fst (last hist)) 2 = Inr first_day"
    and "add_days (fst (last hist)) (- validation_days) = Inr last_train_day"
    and "add_days (fst (last hist)) days_to_forecast = Inr last_forecast_day"
    and "add_days (fst (last hist)) 1 = Inr start"
  shows "\<exists>w. get_windows hist validation_days days_to_forecast = Inr w
           \<and> win_train w = filter (\<lambda>(t, p). first_day \<le> t \<and> t \<le> last_train_day) hist
           \<and> win_test w = filter (\<lambda>(t, p). last_train_day \<le> t) hist
           \<and> (\<forall>e. run_arima ads (win_train w) (win_test w) (win_forecast_days w) = Inl e
                  \<longrightarrow> get_forecast ads hist validation_days days_to_forecast = Inl e)"
proof -
  let ?w = "\<lparr>win_train = filter (\<lambda>(t, p). first_day \<le> t \<and> t \<le> last_train_day) hist,
             win_test = filter (\<lambda>(t, p). last_train_day \<le> t) hist,
             win_all_days = filter (\<lambda>(t, p). first_day \<le> t) hist,
             win_forecast_days = date_range_B start last_forecast_day\<rparr>"
  have w: "get_windows hist validation_days days_to_forecast = Inr ?w"
    by (rule get_windows_sorted [OF assms])
  have "\<forall>e. run_arima ads (win_train ?w) (win_test ?w) (win_forecast_days ?w) = Inl e
           \<longrightarrow> get_forecast ads hist validation_days days_to_forecast = Inl e"
    by (simp add: get_forecast_def w)
  with w show ?thesis
    by (intro exI [of _ ?w]) simp
qed

theorem windowing_checks_no_length_witness:
  "get_forecast \<lparr>run_arima = failing_adapter ''ARIMA'', run_lstm = const_adapter 2,
                  run_mcmc = const_adapter 3\<rparr> hist_5days 90 30
     = Inl (AdapterFailure ''ARIMA'')"
proof -
  let ?ads = "\<lparr>run_arima = failing_adapter ''ARIMA'', run_lstm = const_adapter 2,
                run_mcmc = const_adapter 3\<rparr>"
  have ne: "hist_5days \<noteq> []" by (simp add: hist_5days_def)
  have ld: "fst (last hist_5days) = 19727" by (simp add: hist_5days_def)
  have y: "minus_years (fst (last hist_5days)) 2 = Inr 18997"
    by (simp add: ld minus_years_5days)
  have d1: "add_days (fst (last hist_5days)) (- 90) = Inr 19637"
    and d2: "add_days (fst (last hist_5days)) 30 = Inr 19757"
    and d3: "add_days (fst (last hist_5days)) 1 = Inr 19728"
    by (simp_all add: ld add_days_def ts_min_def ts_max_def)
  show ?thesis
    using windowing_checks_no_length [OF ne sorted_5days y d1 d2 d3, of ?ads]
    by (auto simp: failing_adapter_def)
qed

subsection \<open>Orchestration\<close>

text \<open>
  C4, as stated, fails: with the sequence-model adapter failing and the other two
  succeeding, the orchestrator returns that adapter's error and no table.
\<close>

theorem one_adapter_fails_counterexample:
  "get_forecast \<lparr>run_arima = const_adapter 1, run_lstm = failing_adapter ''LSTM'',
                  run_mcmc = const_adapter 3\<rparr> hist_jan2024 7 30
     = Inl (AdapterFailure ''LSTM'')"
  by (simp add: get_forecast_def get_windows_jan2024 const_adapter_def failing_adapter_def)

text \<open>
  C4, amended. The adapters are called in the order ARIMA, LSTM, MCMC with nothing catching
  their errors: the run returns a result exactly when all three succeed, and otherwise
  returns the error of the first adapter that fails.
\<close>

theorem get_forecast_aborts_on_adapter_failure:
  assumes "get_windows hist validation_days days_to_forecast = Inr w"
  shows "((\<exists>out. get_forecast ads hist validation_days days_to_forecast = Inr out) \<longleftrightarrow>
            (\<exists>ra. run_arima ads (win_train w) (win_test w) (win_forecast_days w) = Inr ra)
          \<and> (\<exists>rl. run_lstm ads (win_train w) (win_test w) (win_forecast_days w) = Inr rl)
          \<and> (\<exists>rm. run_mcmc ads (win_train w) (win_test w) (win_forecast_days w) = Inr rm))
       \<and> (\<forall>e. run_arima ads (win_train w) (win_test w) (win_forecast_days w) = Inl e
              \<longrightarrow> get_forecast ads hist validation_days days_to_forecast = Inl e)
       \<and> (\<forall>e ra. run_arima ads (win_train w) (win_test w) (win_forecast_days w) = Inr ra
                \<and> run_lstm ads (win_train w) (win_test w) (win_forecast_days w) = Inl e
              \<longrightarrow> get_forecast ads hist validation_days days_to_forecast = Inl e)
       \<and> (\<forall>e ra rl. run_arima ads (win_train w) (win_test w) (win_forecast_days w) = Inr ra
                \<and> run_lstm ads (win_train w) (win_test w) (win_forecast_days w) = Inr rl
                \<and> run_mcmc ads (win_train w) (win_test w) (win_forecast_days w) = Inl e
              \<longrightarrow> get_forecast ads hist validation_days days_to_forecast = Inl e)"
proof (intro conjI allI impI)
  show "(\<exists>out. get_forecast ads hist validation_days days_to_forecast = Inr out) \<longleftrightarrow>
            (\<exists>ra. run_arima ads (win_train w) (win_test w) (win_forecast_days w) = Inr ra)
          \<and> (\<exists>rl. run_lstm ads (win_train w) (win_test w) (win_forecast_days w) = Inr rl)
          \<and> (\<exists>rm. run_mcmc ads (win_train w) (win_test w) (win_forecast_days w) = Inr rm)"
    by (auto simp: get_forecast_def assms split: sum.splits prod.splits)
next
  fix e
  assume "run_arima ads (win_train w) (win_test w) (win_forecast_days w) = Inl e"
  then show "get_forecast ads hist validation_days days_to_forecast = Inl e"
    by (simp add: get_forecast_def assms)
next
  fix e ra
  assume "run_arima ads (win_train w) (win_test w) (win_forecast_days w) = Inr ra
            \<and> run_lstm ads (win_train w) (win_test w) (win_forecast_days w) = Inl e"
  then show "get_forecast ads hist validation_days days_to_forecast = Inl e"
    by (simp add: get_forecast_def assms split: prod.splits)
next
  fix e ra rl
  assume "run_arima ads (win_train w) (win_test w) (win_forecast_days w) = Inr ra
            \<and> run_lstm ads (win_train w) (win_test w) (win_forecast_days w) = Inr rl
            \<and> run_mcmc ads (win_train w) (win_test w) (win_forecast_days w) = Inl e"
  then show "get_forecast ads hist validation_days days_to_forecast = Inl e"
    by (simp add: get_forecast_def assms split: prod.splits)
qed

theorem get_forecast_aborts_on_adapter_failure_witness:
  "get_forecast \<lparr>run_arima = const_adapter 1, run_lstm = const_adapter 2,
                  run_mcmc = failing_adapter ''MCMC''\<rparr> hist_jan2024 7 30
     = Inl (AdapterFailure ''MCMC'')
   \<and> (\<exists>out. get_forecast \<lparr>run_arima = const_adapter 1, run_lstm = const_adapter 2,
                  run_mcmc = const_adapter 3\<rparr> hist_jan2024 7 30 = Inr out)"
proof -
  let ?bad = "\<lparr>run_arima = const_adapter 1, run_lstm = const_adapter 2,
                run_mcmc = failing_adapter ''MCMC''\<rparr>"
  let ?good = "\<lparr>run_arima = const_adapter 1, run_lstm = const_adapter 2,
                 run_mcmc = const_adapter 3\<rparr>"
  have "get_forecast ?bad hist_jan2024 7 30 = Inl (AdapterFailure ''MCMC'')"
    using get_forecast_aborts_on_adapter_failure [OF get_windows_jan2024, of ?bad]
    by (simp add: const_adapter_def failing_adapter_def)
  moreover have "\<exists>out. get_forecast ?good hist_jan2024 7 30 = Inr out"
    using get_forecast_aborts_on_adapter_failure [OF get_windows_jan2024, of ?good]
    by (simp add: const_adapter_def)
  ultimately show ?thesis by simp
qed

lemma same_index_length: "map fst a = map fst b \<Longrightarrow> length a = length b"
  by (metis length_map)

lemma series_add_aligned:
  assumes "map fst a = map fst b"
  shows "series_add a b = map (\<lambda>i. (fst (a ! i), cell_add (snd (a ! i)) (snd (b ! i)))) [0..<length a]"
proof -
  have len: "length a = length b" by (rule same_index_length [OF assms])
  have "series_add a b = map (\<lambda>((t, x), (t', y)). (t, cell_add x y)) (zip a b)"
    using assms by (simp add: series_add_def)
  also have "\<dots> = map (\<lambda>i. (fst (a ! i), cell_add (snd (a ! i)) (snd (b ! i)))) [0..<length a]"
    using len by (intro nth_equalityI) (simp_all add: case_prod_beta)
  finally show ?thesis .
qed

lemma series_add_aligned_index:
  assumes "map fst a = map fst b"
  shows "map fst (series_add a b) = map fst a"
  unfolding series_add_aligned [OF assms]
  by (intro nth_equalityI) simp_all

lemma series_add_aligned_nth:
  assumes "map fst a = map fst b" and "i < length a"
  shows "snd (series_add a b ! i) = cell_add (snd (a ! i)) (snd (b ! i))"
  unfolding series_add_aligned [OF assms(1)] using assms(2) by simp

lemma fc_column_index: "map fst (fc_column f) = map fst f"
  by (simp add: fc_column_def case_prod_beta)

lemma fc_column_nth: "i < length f \<Longrightarrow> snd (fc_column f ! i) = Some (snd (f ! i))"
  by (simp add: fc_column_def case_prod_beta)

lemma series_div_index: "map fst (series_div a c) = map fst a"
  by (simp add: series_div_def case_prod_beta)

lemma series_div_nth:
  "i < length a \<Longrightarrow> snd (series_div a c ! i) = map_option (\<lambda>v. v / c) (snd (a ! i))"
  by (simp add: series_div_def case_prod_beta)

lemma ensemble_aligned:
  assumes l: "map fst fl = map fst fa" and m: "map fst fm = map fst fa"
  defines "y \<equiv> series_div (series_add (series_add (fc_column fa) (fc_column fl)) (fc_column fm)) 3"
  shows "map fst y = map fst fa"
    and "\<forall>i<length fa. snd (y ! i) = Some ((snd (fa ! i) + snd (fl ! i) + snd (fm ! i)) / 3)"
proof -
  have al: "map fst (fc_column fa) = map fst (fc_column fl)"
    using l by (simp add: fc_column_index)
  have s1: "map fst (series_add (fc_column fa) (fc_column fl)) = map fst fa"
    using series_add_aligned_index [OF al] by (simp add: fc_column_index)
  have alm: "map fst (series_add (fc_column fa) (fc_column fl)) = map fst (fc_column fm)"
    using s1 m by (simp add: fc_column_index)
  have s2: "map fst (series_add (series_add (fc_column fa) (fc_column fl)) (fc_column fm)) = map fst fa"
    using series_add_aligned_index [OF alm] s1 by simp
  show "map fst y = map fst fa"
    unfolding y_def using s2 by (simp add: series_div_index)
  have len_l: "length fl = length fa" by (rule same_index_length [OF l])
  have len_m: "length fm = length fa" by (rule same_index_length [OF m])
  have len1: "length (series_add (fc_column fa) (fc_column fl)) = length fa"
    using s1 same_index_length by blast
  have len2: "length (series_add (series_add (fc_column fa) (fc_column fl)) (fc_column fm)) = length fa"
    using s2 same_index_length by blast
  show "\<forall>i<length fa. snd (y ! i) = Some ((snd (fa ! i) + snd (fl ! i) + snd (fm ! i)) / 3)"
  proof (intro allI impI)
    fix i assume i: "i < length fa"
    have a1: "snd (series_add (fc_column fa) (fc_column fl) ! i) = Some (snd (fa ! i) + snd (fl ! i))"
      using series_add_aligned_nth [OF al, of i] i len_l
      by (simp add: fc_column_def case_prod_beta cell_add_def)
    have a2: "snd (series_add (series_add (fc_column fa) (fc_column fl)) (fc_column fm) ! i)
                = Some (snd (fa ! i) + snd (fl ! i) + snd (fm ! i))"
      using series_add_aligned_nth [OF alm, of i] i len1 len_m a1
      by (simp add: fc_column_def case_prod_beta cell_add_def)
    show "snd (y ! i) = Some ((snd (fa ! i) + snd (fl ! i) + snd (fm ! i)) / 3)"
      unfolding y_def using series_div_nth [of i _ 3] i len2 a2 by simp
  qed
qed

text \<open>
  C3. When the three adapters return forecast frames that carry the same timestamps, the
  run succeeds, plots these very frames, and its final trace lies over these timestamps and
  holds, at each of them, the arithmetic mean of the ARIMA, LSTM and MCMC predictions that
  the adapters returned for that timestamp.
\<close>

theorem ensemble_is_mean_of_three:
  assumes "get_windows hist validation_days days_to_forecast = Inr w"
    and "run_arima ads (win_train w) (win_test w) (win_forecast_days w) = Inr (fc_arima, errors_arima)"
    and "run_lstm ads (win_train w) (win_test w) (win_forecast_days w) = Inr (fc_lstm, errors_lstm)"
    and "run_mcmc ads (win_train w) (win_test w) (win_forecast_days w) = Inr (fc_mcmc, errors_mcmc)"
    and "map fst fc_lstm = map fst fc_arima"
    and "map fst fc_mcmc = map fst fc_arima"
  shows "\<exists>out. get_forecast ads hist validation_days days_to_forecast = Inr out
           \<and> out_arima out = fc_arima \<and> out_lstm out = fc_lstm \<and> out_mcmc out = fc_mcmc
           \<and> out_final_x out = map fst fc_arima
           \<and> map fst (out_final_y out) = map fst fc_arima
           \<and> (\<forall>i<length fc_arima.
                 snd (out_final_y out ! i) =
                   Some ((snd (fc_arima ! i) + snd (fc_lstm ! i) + snd (fc_mcmc ! i)) / 3))"
proof -
  let ?y = "series_div (series_add (series_add (fc_column fc_arima) (fc_column fc_lstm))
                          (fc_column fc_mcmc)) 3"
  let ?out = "\<lparr>out_error_df =
                  [(''ARIMA'', errors_arima), (''LSTM'', errors_lstm), (''MCMC'', errors_mcmc)],
                out_historical = win_all_days w,
                out_lstm = fc_lstm,
                out_mcmc = fc_mcmc,
                out_arima = fc_arima,
                out_final_x = map fst fc_arima,
                out_final_y = ?y\<rparr>"
  have run: "get_forecast ads hist validation_days days_to_forecast = Inr ?out"
    by (simp add: get_forecast_def assms(1-4))
  have idx: "map fst ?y = map fst fc_arima"
    by (rule ensemble_aligned(1) [OF assms(5) assms(6)])
  have mean: "\<forall>i<length fc_arima.
                 snd (?y ! i) = Some ((snd (fc_arima ! i) + snd (fc_lstm ! i) + snd (fc_mcmc ! i)) / 3)"
    by (rule ensemble_aligned(2) [OF assms(5) assms(6)])
  show ?thesis
    using run idx mean by (intro exI [of _ ?out]) simp
qed

theorem ensemble_is_mean_of_three_witness:
  "(\<exists>out. get_forecast \<lparr>run_arima = const_adapter 1, run_lstm = const_adapter 2,
                          run_mcmc = const_adapter 6\<rparr> hist_jan2024 7 30 = Inr out
          \<and> out_final_x out = date_range_B 19731 19760
          \<and> (\<forall>i<length (date_range_B 19731 19760). snd (out_final_y out ! i) = Some 3))
   \<and> (\<exists>out. get_forecast \<lparr>run_arima = const_adapter 4, run_lstm = const_adapter 4,
                          run_mcmc = const_adapter 7\<rparr> hist_jan2024 7 30 = Inr out
          \<and> out_final_x out = date_range_B 19731 19760
          \<and> (\<forall>i<length (date_range_B 19731 19760). snd (out_final_y out ! i) = Some 5))"
proof -
  let ?days = "date_range_B 19731 19760"
  let ?errs = "Some \<lparr>err_mse = 0, err_smape = 0, err_da = 1\<rparr>"
  let ?a1 = "\<lparr>run_arima = const_adapter 1, run_lstm = const_adapter 2,
               run_mcmc = const_adapter 6\<rparr>"
  let ?a2 = "\<lparr>run_arima = const_adapter 4, run_lstm = const_adapter 4,
               run_mcmc = const_adapter 7\<rparr>"
  have "\<exists>out. get_forecast ?a1 hist_jan2024 7 30 = Inr out
          \<and> out_final_x out = ?days
          \<and> (\<forall>i<length ?days. snd (out_final_y out ! i) = Some 3)"
    using ensemble_is_mean_of_three [where ads = ?a1, OF get_windows_jan2024,
        of "map (\<lambda>d. (d, 1)) ?days" ?errs "map (\<lambda>d. (d, 2)) ?days" ?errs
           "map (\<lambda>d. (d, 6)) ?days" ?errs]
    by (auto simp: const_adapter_def comp_def)
  moreover have "\<exists>out. get_forecast ?a2 hist_jan2024 7 30 = Inr out
          \<and> out_final_x out = ?days
          \<and> (\<forall>i<length ?days. snd (out_final_y out ! i) = Some 5)"
    using ensemble_is_mean_of_three [where ads = ?a2, OF get_windows_jan2024,
        of "map (\<lambda>d. (d, 4)) ?days" ?errs "map (\<lambda>d. (d, 4)) ?days" ?errs
           "map (\<lambda>d. (d, 7)) ?days" ?errs]
    by (auto simp: const_adapter_def comp_def)
  ultimately show ?thesis by blast
qed

subsection \<open>Forecast timestamps\<close>

lemma date_range_B_sorted: "sorted_wrt (<) (date_range_B a b)"
  unfolding date_range_B_def by (rule sorted_wrt_filter) simp

lemma date_range_B_distinct: "distinct (date_range_B a b)"
  by (simp add: date_range_B_def)

lemma date_range_B_set: "set (date_range_B a b) = {t. a \<le> t \<and> t \<le> b \<and> is_business_day t}"
  by (auto simp: date_range_B_def)

lemma date_range_B_length_le: "length (date_range_B a b) \<le> nat (b - a + 1)"
proof -
  have "length (filter is_business_day [a..b]) \<le> length [a..b]" by (rule length_filter_le)
  then show ?thesis by (simp add: date_range_B_def)
qed

lemma weekend_within_six_days: "\<exists>t. a \<le> t \<and> t \<le> a + 5 \<and> \<not> is_business_day t"
proof -
  have "\<exists>t. a \<le> t \<and> t \<le> a + 5 \<and> \<not> (t + 3) mod 7 < 5" by presburger
  then show ?thesis by (simp add: is_business_day_def weekday_def)
qed

lemma date_range_B_length_less:
  assumes "a + 5 \<le> b"
  shows "length (date_range_B a b) < nat (b - a + 1)"
proof -
  obtain t where t: "a \<le> t" "t \<le> a + 5" "\<not> is_business_day t"
    using weekend_within_six_days [of a] by blast
  then have "t \<in> set [a..b]" using assms by simp
  then have "length (filter is_business_day [a..b]) < length [a..b]"
    using t(3) by (rule length_filter_less)
  then show ?thesis by (simp add: date_range_B_def)
qed

lemma get_windows_Inr_nonempty:
  "get_windows hist validation_days days_to_forecast = Inr w \<Longrightarrow> hist \<noteq> []"
  by (auto simp: get_windows_empty)

lemma get_windows_forecast_days:
  assumes "get_windows hist validation_days days_to_forecast = Inr w"
  shows "win_forecast_days w = date_range_B (fst (last hist) + 1) (fst (last hist) + days_to_forecast)"
proof -
  have ne: "hist \<noteq> []" by (rule get_windows_Inr_nonempty [OF assms])
  have last: "py_index (map fst hist) (- 1) = Inr (fst (last hist))"
    using ne by (simp add: py_index_last last_map)
  show ?thesis
    using assms
    by (auto simp: get_windows_def last split: sum.splits dest!: add_days_Inr)
qed

text \<open>
  C2, as stated, fails: after Monday 2024-01-08 the default horizon of 30 gives 22
  timestamps, not 30.
\<close>

theorem forecast_days_count_counterexample:
  "map_sum id (length \<circ> win_forecast_days) (get_windows hist_jan2024 7 30) = Inr 22"
proof -
  have "length (date_range_B 19731 19760) = 22" by code_simp
  then show ?thesis by (simp add: get_windows_jan2024)
qed

text \<open>
  C2, amended. The forecast timestamps are the business days among the \<^verbatim>\<open>days_to_forecast\<close>
  calendar days that follow the last historical day: exactly the weekdays \<open>t\<close> with
  \<open>last_day < t \<le> last_day + days_to_forecast\<close>, strictly increasing and without duplicates.
  There are at most \<^verbatim>\<open>days_to_forecast\<close> of them, and fewer as soon as the horizon is 6 days
  or more, since it then contains a weekend day.
\<close>

theorem forecast_days_are_weekdays_of_horizon:
  assumes "get_windows hist validation_days days_to_forecast = Inr w"
    and "0 < days_to_forecast"
  shows "sorted_wrt (<) (win_forecast_days w)
       \<and> distinct (win_forecast_days w)
       \<and> set (win_forecast_days w) =
           {t. fst (last hist) < t \<and> t \<le> fst (last hist) + days_to_forecast \<and> is_business_day t}
       \<and> length (win_forecast_days w) \<le> nat days_to_forecast
       \<and> (6 \<le> days_to_forecast \<longrightarrow> length (win_forecast_days w) < nat days_to_forecast)"
proof -
  let ?ld = "fst (last hist)"
  have fd: "win_forecast_days w = date_range_B (?ld + 1) (?ld + days_to_forecast)"
    by (rule get_windows_forecast_days [OF assms(1)])
  have "set (date_range_B (?ld + 1) (?ld + days_to_forecast)) =
          {t. ?ld < t \<and> t \<le> ?ld + days_to_forecast \<and> is_business_day t}"
    by (auto simp: date_range_B_set)
  moreover have "length (date_range_B (?ld + 1) (?ld + days_to_forecast)) \<le> nat days_to_forecast"
    using date_range_B_length_le [of "?ld + 1" "?ld + days_to_forecast"] by simp
  moreover have "6 \<le> days_to_forecast \<longrightarrow>
          length (date_range_B (?ld + 1) (?ld + days_to_forecast)) < nat days_to_forecast"
  proof
    assume "6 \<le> days_to_forecast"
    then have "?ld + 1 + 5 \<le> ?ld + days_to_forecast" by simp
    from date_range_B_length_less [OF this] show
      "length (date_range_B (?ld + 1) (?ld + days_to_forecast)) < nat days_to_forecast" by simp
  qed
  ultimately show ?thesis
    unfolding fd using date_range_B_sorted date_range_B_distinct by blast
qed

theorem forecast_days_are_weekdays_of_horizon_witness:
  "(0::int) < 30
   \<and> sorted_wrt (<) (date_range_B 19731 19760)
   \<and> set (date_range_B 19731 19760) = {t. 19730 < t \<and> t \<le> 19730 + 30 \<and> is_business_day t}
   \<and> length (date_range_B 19731 19760) < nat 30"
proof -
  let ?w = "\<lparr>win_train = [(19723, 100)], win_test = hist_jan2024, win_all_days = hist_jan2024,
            win_forecast_days = date_range_B 19731 19760\<rparr>"
  have pos: "(0::int) < 30" by simp
  have last: "fst (last hist_jan2024) = 19730" by (simp add: hist_jan2024_def)
  show ?thesis
    using forecast_days_are_weekdays_of_horizon [OF get_windows_jan2024 pos] last by simp
qed

subsection \<open>Training inputs of the sequence model\<close>

lemma lstm_training_inputs_by_range:
  assumes "test1 \<noteq> []" and "test2 \<noteq> []"
    and "Min (set (train @ test1)) = Min (set (train @ test2))"
    and "Max (set (train @ test1)) = Max (set (train @ test2))"
  shows "lstm_training_inputs train test1 = lstm_training_inputs train test2"
proof -
  have "scaler_fit (train @ test1) = scaler_fit (train @ test2)"
    using assms by (simp add: scaler_fit_def)
  moreover have "\<And>sc. isl (scaler_transform sc test1) = isl (scaler_transform sc test2)"
    using assms(1,2) by (simp add: scaler_transform_def)
  ultimately show ?thesis
    using assms(1,2)
    by (simp add: lstm_training_inputs_def scaler_transform_def split: sum.splits)
qed

lemma range_kept_by_inner_values:
  assumes "train \<noteq> []"
    and "\<forall>x\<in>set test. Min (set train) \<le> x \<and> x \<le> Max (set train)"
  shows "Min (set (train @ test)) = Min (set train)"
    and "Max (set (train @ test)) = Max (set train)"
proof -
  have fin: "finite (set (train @ test))" by simp
  have mn: "Min (set train) \<in> set train" using assms(1) by (intro Min_in) simp_all
  have mx: "Max (set train) \<in> set train" using assms(1) by (intro Max_in) simp_all
  show "Min (set (train @ test)) = Min (set train)"
  proof (rule Min_eqI [OF fin])
    fix y assume "y \<in> set (train @ test)"
    then show "Min (set train) \<le> y" using assms(2) by auto
  next
    show "Min (set train) \<in> set (train @ test)" using mn by simp
  qed
  show "Max (set (train @ test)) = Max (set train)"
  proof (rule Max_eqI [OF fin])
    fix y assume "y \<in> set (train @ test)"
    then show "y \<le> Max (set train)" using assms(2) by auto
  next
    show "Max (set train) \<in> set (train @ test)" using mx by simp
  qed
qed

text \<open>
  C9, as stated, fails: with the same 61 training values, a validation value of 20 and one
  of 40 give different training targets, because the scaler is fitted on both series.
\<close>

theorem lstm_training_inputs_counterexample:
  "lstm_training_inputs (replicate 60 0 @ [10]) [20] = Inr ([replicate 60 0], [1 / 2])
   \<and> lstm_training_inputs (replicate 60 0 @ [10]) [40] = Inr ([replicate 60 0], [1 / 4])"
  by (simp add: lstm_training_inputs_def scaler_fit_def scaler_transform_def scale_of_def
      lookback_windows_def nth_append)

lemma lookback_windows_nonempty:
  "60 < length ys \<Longrightarrow> fst (lookback_windows ys) \<noteq> []"
  by (auto simp: lookback_windows_def)

lemma lstm_training_inputs_scaled:
  assumes "60 < length train" and "test \<noteq> []"
  shows "lstm_training_inputs train test =
           Inr (lookback_windows
                  (map (\<lambda>x. x * scale_of \<lparr>data_min = Min (set (train @ test)),
                                             data_max = Max (set (train @ test))\<rparr>
                             + (0 - Min (set (train @ test))
                                     * scale_of \<lparr>data_min = Min (set (train @ test)),
                                                 data_max = Max (set (train @ test))\<rparr>))
                     train))"
proof -
  let ?sc = "\<lparr>data_min = Min (set (train @ test)), data_max = Max (set (train @ test))\<rparr>"
  let ?ys = "map (\<lambda>x. x * scale_of ?sc + (0 - Min (set (train @ test)) * scale_of ?sc)) train"
  have ne: "train \<noteq> []" using assms(1) by auto
  have fit: "scaler_fit (train @ test) = Inr ?sc" using ne by (simp add: scaler_fit_def)
  have tr: "scaler_transform ?sc train = Inr ?ys" using ne by (simp add: scaler_transform_def)
  have te: "\<exists>zs. scaler_transform ?sc test = Inr zs" using assms(2) by (simp add: scaler_transform_def)
  have "60 < length ?ys" using assms(1) by simp
  then have win: "fst (lookback_windows ?ys) \<noteq> []" by (rule lookback_windows_nonempty)
  obtain zs where zs: "scaler_transform ?sc test = Inr zs" using te by blast
  have "lstm_training_inputs train test =
          (case lookback_windows ?ys of
             (train_X, train_y) \<Rightarrow>
               if train_X = [] then Inl IndexError else Inr (train_X, train_y))"
    by (simp only: lstm_training_inputs_def fit tr zs sum.case)
  then show ?thesis
    using win by (cases "lookback_windows ?ys") simp
qed

text \<open>
  C9, amended. The training inputs are cut from the training values only, but these are
  scaled with the minimum and maximum of the training and validation values together: with
  more than 60 training values and a non-empty validation series they are the lookback
  windows over the training values \<open>x\<close> mapped to \<open>x * scale + (0 - min * scale)\<close>, where
  \<open>scale = 1 / (max - min)\<close> (a zero range replaced by 1) for the joint \<open>min\<close> and \<open>max\<close>. Hence,
  for a fixed training series, two non-empty validation series with the same joint minimum
  and maximum give the same training inputs and, for the same random draws inside the
  library, the same trained model.
\<close>

theorem lstm_training_depends_on_validation_range_only:
  assumes "test1 \<noteq> []" and "test2 \<noteq> []"
    and "Min (set (train @ test1)) = Min (set (train @ test2))"
    and "Max (set (train @ test1)) = Max (set (train @ test2))"
  shows "lstm_training_inputs train test1 = lstm_training_inputs train test2
       \<and> lstm_train keras_fit draws train test1 = lstm_train keras_fit draws train test2
       \<and> (60 < length train \<longrightarrow>
            lstm_training_inputs train test1 =
              Inr (lookback_windows
                     (map (\<lambda>x. x * scale_of \<lparr>data_min = Min (set (train @ test1)),
                                                data_max = Max (set (train @ test1))\<rparr>
                                + (0 - Min (set (train @ test1))
                                        * scale_of \<lparr>data_min = Min (set (train @ test1)),
                                                    data_max = Max (set (train @ test1))\<rparr>))
                        train)))"
proof (intro conjI impI)
  show eq: "lstm_training_inputs train test1 = lstm_training_inputs train test2"
    by (rule lstm_training_inputs_by_range [OF assms])
  show "lstm_train keras_fit draws train test1 = lstm_train keras_fit draws train test2"
    by (simp add: lstm_train_def eq)
next
  assume "60 < length train"
  then show "lstm_training_inputs train test1 =
              Inr (lookback_windows
                     (map (\<lambda>x. x * scale_of \<lparr>data_min = Min (set (train @ test1)),
                                                data_max = Max (set (train @ test1))\<rparr>
                                + (0 - Min (set (train @ test1))
                                        * scale_of \<lparr>data_min = Min (set (train @ test1)),
                                                    data_max = Max (set (train @ test1))\<rparr>))
                        train))"
    using assms(1) by (rule lstm_training_inputs_scaled)
qed

theorem lstm_training_depends_on_validation_range_only_witness:
  "lstm_training_inputs (replicate 60 0 @ [10]) [5] =
     lstm_training_inputs (replicate 60 0 @ [10]) [7, 3]
   \<and> lstm_train (\<lambda>draws train_X train_y. Inr (draws, train_X, train_y)) (1::nat)
        (replicate 60 0 @ [10]) [5] =
     lstm_train (\<lambda>draws train_X train_y. Inr (draws, train_X, train_y)) (1::nat)
        (replicate 60 0 @ [10]) [7, 3]
   \<and> lstm_training_inputs (replicate 60 0 @ [10]) [5] = Inr ([replicate 60 0], [1])"
proof -
  have a: "[5 :: real] \<noteq> []" and b: "[7, 3 :: real] \<noteq> []" by simp_all
  have mn: "Min (set ((replicate 60 0 @ [10]) @ [5 :: real])) =
            Min (set ((replicate 60 0 @ [10]) @ [7, 3]))" by simp
  have mx: "Max (set ((replicate 60 0 @ [10]) @ [5 :: real])) =
            Max (set ((replicate 60 0 @ [10]) @ [7, 3]))" by simp
  have len: "60 < length (replicate 60 0 @ [10 :: real])" by simp
  have mn0: "Min (set ((replicate 60 0 @ [10]) @ [5 :: real])) = 0" by simp
  have mx10: "Max (set ((replicate 60 0 @ [10]) @ [5 :: real])) = 10" by simp
  note inst = lstm_training_depends_on_validation_range_only
               [OF a b mn mx,
                 where keras_fit = "\<lambda>draws train_X train_y. Inr (draws, train_X, train_y)"
                   and draws = "1::nat"]
  let ?sc = "\<lparr>data_min = Min (set ((replicate 60 0 @ [10]) @ [5 :: real])),
               data_max = Max (set ((replicate 60 0 @ [10]) @ [5 :: real]))\<rparr>"
  have scaled: "lstm_training_inputs (replicate 60 0 @ [10]) [5] =
          Inr (lookback_windows
                 (map (\<lambda>x. x * scale_of ?sc
                            + (0 - Min (set ((replicate 60 0 @ [10]) @ [5 :: real])) * scale_of ?sc))
                    (replicate 60 0 @ [10])))"
    using inst len by blast
  have val: "lookback_windows
                 (map (\<lambda>x. x * scale_of ?sc
                            + (0 - Min (set ((replicate 60 0 @ [10]) @ [5 :: real])) * scale_of ?sc))
                    (replicate 60 0 @ [10])) = ([replicate 60 0], [1])"
    unfolding mn0 mx10 by (simp add: scale_of_def lookback_windows_def nth_append)
  have "lstm_training_inputs (replicate 60 0 @ [10]) [5] = Inr ([replicate 60 0], [1])"
    using scaled unfolding val .
  with inst show ?thesis by blast
qed

end
